theory Spec2Isabelle
  imports Main "HOL-Library.AList" "HOL-Library.Char_ord" "HOL-Library.List_Lexorder"
begin

section \<open>Data model of the ride monitor backend\<close>

text \<open>
  The server keeps its state in module-level JavaScript objects. An object that the code
  iterates with \<open>Object.entries\<close> is an association list (entries in iteration order, keys
  distinct); an object or \<open>Set\<close> that is only read and written by key is a map or a set.
  Library calls whose code is not part of the repository (the Expo SDK, \<open>Date\<close> parsing
  and formatting, the path matching of Express) are fields of the record \<open>env\<close>. The
  clock is an argument: \<open>now\<close> in milliseconds since the epoch, and the local date string
  that \<open>getTodayDateString\<close> returns. Wait times and travel times are integers, a ride
  status is the string the upstream data carries. The preferences route stores
  \<open>req.body.preferences\<close> as it comes, so what is stored for a user is an object from
  ride ids to preference entries or \<open>undefined\<close>/\<open>null\<close>, which is \<open>None\<close> here.
\<close>

record ridePreference =
  enabled :: bool
  maxWait :: int

record ride =
  rideId :: string
  rideName :: string
  currentWait :: int
  status :: string

text \<open>An entry of \<open>readyRides\<close>: \<open>{...ride, land: landName, park: parkData.name}\<close>.\<close>

record readyRide = ride +
  land :: string
  park :: "string option"

record parkData =
  parkName :: "string option"
  lands :: "(string \<times> ride list) list"

datatype msgData =
  RideData nat string
  | ShowData string
  | ShowWarningData string
  | DiningData string
  | LightningLaneData string

text \<open>A push message. The emoji that starts each title in the source is left out of the
  title literals below.\<close>

record message =
  to :: string
  sound :: string
  title :: string
  body :: string
  data :: msgData
  priority :: string
  channelId :: string

type_synonym preferences = "string \<rightharpoonup> ridePreference"

section \<open>Library calls\<close>

text \<open>A push ticket of the Expo gateway: \<open>ticket.status\<close> and, when \<open>ticket.details\<close>
  is present, \<open>ticket.details.error\<close>.\<close>

record ticket =
  ticketStatus :: string
  detailsError :: "string option"

text \<open>What \<open>await expo.sendPushNotificationsAsync(chunk)\<close> does: it throws, or it
  returns the tickets of the chunk.\<close>

datatype sendResult = Threw | Tickets "ticket list"

text \<open>The library calls: \<open>Expo.isExpoPushToken\<close>, \<open>new Date(s).getTime()\<close> (\<open>None\<close>
  for an invalid date), \<open>toLocaleTimeString\<close>, \<open>expo.chunkPushNotifications\<close>, the
  outcome of the k-th call of \<open>expo.sendPushNotificationsAsync\<close> within one dispatch,
  the path matching of Express (from the segments of a route pattern and of a request
  path to the values of the pattern's parameters, when the path matches), and the
  exponent notation in which a number of magnitude 1e21 or more is printed.\<close>

record env =
  isExpoPushToken :: "string \<Rightarrow> bool"
  parseDate :: "string \<Rightarrow> int option"
  formatTime :: "int \<Rightarrow> string"
  chunkPushNotifications :: "message list \<Rightarrow> message list list"
  sendPushNotificationsAsync :: "nat \<Rightarrow> message list \<Rightarrow> sendResult"
  matchRoute :: "string list \<Rightarrow> string list \<Rightarrow> string list option"
  exponentForm :: "int \<Rightarrow> string"

section \<open>Ride readiness (checkAndNotifyUsers)\<close>

text \<open>The condition of the innermost \<open>forEach\<close>: \<open>pref && pref.enabled &&
  ride.currentWait <= pref.maxWait && (ride.status === 'OPERATING' || ride.status === 'DOWN')\<close>.\<close>

definition qualifies :: "preferences \<Rightarrow> ride \<Rightarrow> bool" where
  "qualifies prefs r =
     (case prefs (rideId r) of
        None \<Rightarrow> False
      | Some pref \<Rightarrow>
          enabled pref \<and> currentWait r \<le> maxWait pref \<and>
          (status r = ''OPERATING'' \<or> status r = ''DOWN''))"

definition mkReadyRide :: "ride \<Rightarrow> string \<Rightarrow> string option \<Rightarrow> readyRide" where
  "mkReadyRide r landName pk =
     \<lparr>rideId = rideId r, rideName = rideName r, currentWait = currentWait r,
      status = status r, land = landName, park = pk\<rparr>"

text \<open>The three nested loops over parks, lands and rides that fill \<open>readyRides\<close>.\<close>

definition landReady :: "preferences \<Rightarrow> string option \<Rightarrow> string \<times> ride list \<Rightarrow> readyRide list" where
  "landReady prefs pk entry =
     map (\<lambda>r. mkReadyRide r (fst entry) pk) (filter (qualifies prefs) (snd entry))"

definition parkReady :: "preferences \<Rightarrow> string \<times> parkData \<Rightarrow> readyRide list" where
  "parkReady prefs entry =
     concat (map (landReady prefs (parkName (snd entry))) (lands (snd entry)))"

definition readyRidesOf :: "preferences \<Rightarrow> (string \<times> parkData) list \<Rightarrow> readyRide list" where
  "readyRidesOf prefs cache = concat (map (parkReady prefs) cache)"

text \<open>The rides of the snapshot in iteration order.\<close>

definition snapshotRides :: "(string \<times> parkData) list \<Rightarrow> ride list" where
  "snapshotRides cache = concat (map (\<lambda>pe. concat (map snd (lands (snd pe)))) cache)"

text \<open>The handler of \<open>GET /api/users/:userId/ready-rides\<close>: the guard
  \<open>if (!preferences)\<close> answers the empty list for a user without an entry and for a
  stored \<open>undefined\<close> or \<open>null\<close>; otherwise the same three loops run.\<close>

definition getReadyRides ::
  "(string \<times> preferences option) list \<Rightarrow> (string \<times> parkData) list \<Rightarrow> string
     \<Rightarrow> readyRide list" where
  "getReadyRides userPreferences cache userId =
     (case map_of userPreferences userId of
        None \<Rightarrow> []
      | Some None \<Rightarrow> []
      | Some (Some prefs) \<Rightarrow> readyRidesOf prefs cache)"

text \<open>Lines 540 to 567: the ready rides, their ids, and the ones not yet announced.\<close>

definition evaluateRides ::
  "preferences \<Rightarrow> (string \<times> parkData) list \<Rightarrow> string set \<Rightarrow> readyRide list \<times> string set" where
  "evaluateRides prefs cache previouslyNotified =
     (let readyRides = readyRidesOf prefs cache;
          currentReadyRideIds = set (map rideId readyRides);
          newReadyRides = filter (\<lambda>r. rideId r \<notin> previouslyNotified) readyRides
      in (newReadyRides, currentReadyRideIds))"

subsection \<open>Message text\<close>

text \<open>A template literal prints an integer of magnitude below 1e21 with its decimal
  digits and a larger one in exponent notation.\<close>

fun digits10 :: "nat \<Rightarrow> string" where
  "digits10 n =
     (if n < 10 then [char_of (48 + n)]
      else digits10 (n div 10) @ [char_of (48 + n mod 10)])"

declare digits10.simps [simp del]

definition showInt :: "env \<Rightarrow> int \<Rightarrow> string" where
  "showInt env i =
     (if \<bar>i\<bar> < 10 ^ 21
      then (if i < 0 then ''-'' @ digits10 (nat (- i)) else digits10 (nat i))
      else exponentForm env i)"

text \<open>Lines 570 to 578, for a non-empty \<open>newReadyRides\<close>.\<close>

definition rideBody :: "env \<Rightarrow> readyRide \<Rightarrow> nat \<Rightarrow> string" where
  "rideBody env firstRide rideCount =
     (if rideCount = 1 then
        rideName firstRide @ '' is now '' @ showInt env (currentWait firstRide)
          @ '' min wait!''
      else
        rideName firstRide @ '' and '' @ showInt env (int rideCount - 1) @ '' other ride''
          @ (if rideCount > 2 then ''s are'' else '' is'') @ '' ready!'')"

fun joinWith :: "string \<Rightarrow> string list \<Rightarrow> string" where
  "joinWith sep [] = []"
| "joinWith sep [x] = x"
| "joinWith sep (x # y # ys) = x @ sep @ joinWith sep (y # ys)"

definition rideMessage :: "env \<Rightarrow> string \<Rightarrow> readyRide list \<Rightarrow> message list" where
  "rideMessage env pushToken newReadyRides =
     (case newReadyRides of
        [] \<Rightarrow> []
      | firstRide # rest \<Rightarrow>
          [\<lparr>to = pushToken, sound = ''default'', title = ''Ride Ready!'',
            body = rideBody env firstRide (length newReadyRides),
            data = RideData (length newReadyRides) (joinWith '', '' (map rideName newReadyRides)),
            priority = ''high'', channelId = ''ride-alerts''\<rparr>])"

section \<open>Push delivery (sendPushNotifications)\<close>

text \<open>The guard \<open>if (!pushToken || !Expo.isExpoPushToken(pushToken)) continue\<close>:
  \<open>None\<close> is the \<open>continue\<close>.\<close>

definition validPushToken :: "env \<Rightarrow> (string \<times> string) list \<Rightarrow> string \<Rightarrow> string option" where
  "validPushToken env tokens userId =
     (case map_of tokens userId of
        None \<Rightarrow> None
      | Some pushToken \<Rightarrow>
          if pushToken = [] \<or> \<not> isExpoPushToken env pushToken then None else Some pushToken)"

text \<open>The inner \<open>forEach\<close> over \<open>Object.entries(userDeviceTokens)\<close>: every entry whose
  token is the message's address is deleted.\<close>

definition removeToken :: "string \<Rightarrow> (string \<times> string) list \<Rightarrow> (string \<times> string) list" where
  "removeToken address tokens = filter (\<lambda>e. snd e \<noteq> address) tokens"

text \<open>\<open>ticketChunk.forEach((ticket, index) => ...)\<close>. When the gateway returns more
  tickets than the chunk has messages, \<open>chunk[index]\<close> is undefined and \<open>message.to\<close>
  throws as soon as there is a registration to compare with; the \<open>try\<close> around the chunk
  catches it, so the remaining tickets of this chunk are skipped.\<close>

fun forEachTicket ::
  "message list \<Rightarrow> nat \<Rightarrow> ticket list \<Rightarrow> (string \<times> string) list \<Rightarrow> (string \<times> string) list" where
  "forEachTicket chunk index [] tokens = tokens"
| "forEachTicket chunk index (t # ts) tokens =
     (if ticketStatus t = ''error'' \<and> detailsError t = Some ''DeviceNotRegistered'' then
        (if index < length chunk then
           forEachTicket chunk (Suc index) ts (removeToken (to (chunk ! index)) tokens)
         else if tokens = [] then forEachTicket chunk (Suc index) ts tokens
         else tokens)
      else forEachTicket chunk (Suc index) ts tokens)"

text \<open>The loop over the chunks. The first component lists the chunks handed to the
  gateway, in order.\<close>

fun sendChunks ::
  "env \<Rightarrow> nat \<Rightarrow> message list list \<Rightarrow> (string \<times> string) list
     \<Rightarrow> message list list \<times> (string \<times> string) list" where
  "sendChunks env k [] tokens = ([], tokens)"
| "sendChunks env k (chunk # chunks) tokens =
     (let tokens' =
            (case sendPushNotificationsAsync env k chunk of
               Threw \<Rightarrow> tokens
             | Tickets ticketChunk \<Rightarrow> forEachTicket chunk 0 ticketChunk tokens);
          rest = sendChunks env (Suc k) chunks tokens'
      in (chunk # fst rest, snd rest))"

definition sendPushNotifications ::
  "env \<Rightarrow> message list \<Rightarrow> (string \<times> string) list \<Rightarrow> message list list \<times> (string \<times> string) list" where
  "sendPushNotifications env messages tokens =
     (if messages = [] then ([], tokens)
      else sendChunks env 0 (chunkPushNotifications env messages) tokens)"

section \<open>The notification cycle for rides\<close>

text \<open>The body of the loop over \<open>Object.entries(userPreferences)\<close> for a user whose
  stored preferences are an object; the accumulator is \<open>messages\<close> and
  \<open>notifiedRides\<close>.\<close>

definition checkUser ::
  "env \<Rightarrow> (string \<times> parkData) list \<Rightarrow> (string \<times> string) list \<Rightarrow> string \<times> preferences
     \<Rightarrow> message list \<times> (string \<rightharpoonup> string set) \<Rightarrow> message list \<times> (string \<rightharpoonup> string set)" where
  "checkUser env cache tokens entry acc =
     (case validPushToken env tokens (fst entry) of
        None \<Rightarrow> acc
      | Some pushToken \<Rightarrow>
          (let previouslyNotified = (case snd acc (fst entry) of None \<Rightarrow> {} | Some s \<Rightarrow> s);
               ev = evaluateRides (snd entry) cache previouslyNotified
           in (fst acc @ rideMessage env pushToken (fst ev), (snd acc)(fst entry \<mapsto> snd ev))))"

datatype error = TypeError

text \<open>The loop body for any stored value. When the stored preferences are
  \<open>undefined\<close> or \<open>null\<close> and the user has a valid token, \<open>preferences[ride.id]\<close>
  throws a TypeError at the first ride of the snapshot; nothing has been written for the
  user at that point. With no ride in the snapshot the lookup is never reached and the
  body runs as for an object without entries.\<close>

definition checkEntry ::
  "env \<Rightarrow> (string \<times> parkData) list \<Rightarrow> (string \<times> string) list \<Rightarrow> string \<times> preferences option
     \<Rightarrow> message list \<times> (string \<rightharpoonup> string set)
     \<Rightarrow> error + message list \<times> (string \<rightharpoonup> string set)" where
  "checkEntry env cache tokens entry acc =
     (case validPushToken env tokens (fst entry) of
        None \<Rightarrow> Inr acc
      | Some pushToken \<Rightarrow>
          (case snd entry of
             None \<Rightarrow>
               if snapshotRides cache = []
               then Inr (checkUser env cache tokens (fst entry, Map.empty) acc)
               else Inl TypeError
           | Some prefs \<Rightarrow> Inr (checkUser env cache tokens (fst entry, prefs) acc)))"

text \<open>The loop over the users. Nothing catches the TypeError: the loop stops there, and
  what it has written so far stays written.\<close>

fun rideLoop ::
  "env \<Rightarrow> (string \<times> parkData) list \<Rightarrow> (string \<times> string) list
     \<Rightarrow> (string \<times> preferences option) list \<Rightarrow> message list \<times> (string \<rightharpoonup> string set)
     \<Rightarrow> error option \<times> message list \<times> (string \<rightharpoonup> string set)" where
  "rideLoop env cache tokens [] acc = (None, acc)"
| "rideLoop env cache tokens (e # es) acc =
     (case checkEntry env cache tokens e acc of
        Inl err \<Rightarrow> (Some err, acc)
      | Inr acc' \<Rightarrow> rideLoop env cache tokens es acc')"

text \<open>The entry at which the loop throws.\<close>

definition throwsAt ::
  "env \<Rightarrow> (string \<times> parkData) list \<Rightarrow> (string \<times> string) list \<Rightarrow> string \<times> preferences option
     \<Rightarrow> bool" where
  "throwsAt env cache tokens entry \<longleftrightarrow>
     validPushToken env tokens (fst entry) \<noteq> None \<and> snd entry = None
       \<and> snapshotRides cache \<noteq> []"

text \<open>The stored preferences as an object: no entries for \<open>undefined\<close> or \<open>null\<close>.\<close>

definition prefsOf :: "string \<times> preferences option \<Rightarrow> preferences" where
  "prefsOf entry = (case snd entry of None \<Rightarrow> Map.empty | Some prefs \<Rightarrow> prefs)"

text \<open>What the loop body appends to \<open>messages\<close> for an entry at which it does not
  throw (lines 561 to 595), when the sets are \<open>notified\<close> as the body starts.\<close>

definition queuedFor ::
  "env \<Rightarrow> (string \<times> parkData) list \<Rightarrow> (string \<times> string) list \<Rightarrow> (string \<rightharpoonup> string set)
     \<Rightarrow> string \<times> preferences option \<Rightarrow> message list" where
  "queuedFor env cache tokens notified entry =
     (case validPushToken env tokens (fst entry) of
        None \<Rightarrow> []
      | Some pushToken \<Rightarrow>
          rideMessage env pushToken
            (fst (evaluateRides (prefsOf entry) cache
                    (case notified (fst entry) of None \<Rightarrow> {} | Some s \<Rightarrow> s))))"

section \<open>Scheduled events\<close>

text \<open>The three kinds of schedule entry share \<open>travelTime\<close> and \<open>notified\<close>. The
  fields \<open>id\<close>, \<open>time\<close> and \<open>type\<close> of a dining entry and \<open>rideName\<close> of a Lightning
  Lane entry are renamed, since HOL and the records above use these names.\<close>

record event =
  travelTime :: int
  notified :: bool

record showItem = event +
  showId :: string
  showName :: string
  selectedTime :: string
  finalWarningNotified :: bool

record diningItem = event +
  diningId :: string
  restaurantName :: string
  diningTime :: string
  diningType :: string

record lane = event +
  laneRideName :: string
  returnTime :: string

record archiveEntry =
  archivedShows :: "showItem list"
  archivedDining :: "diningItem list"
  archivedLightningLanes :: "(string \<times> lane) list"

type_synonym 'a schedule = "(string \<times> (string \<times> 'a) list) list"

record state =
  parkDataCache :: "(string \<times> parkData) list"
  userPreferences :: "(string \<times> preferences option) list"
  userDeviceTokens :: "(string \<times> string) list"
  notifiedRides :: "string \<rightharpoonup> string set"
  userShowSchedules :: "showItem list schedule"
  userDiningSchedules :: "diningItem list schedule"
  userLightningLanes :: "(string \<times> lane) list schedule"
  archivedSchedules :: "archiveEntry schedule"

text \<open>\<open>checkAndNotifyUsers\<close>: the loop over the users, then the dispatch. The result
  gives the queued messages, the chunks handed to the gateway and the state afterwards.
  When the loop throws, the function ends there: the messages queued so far are dropped
  without a dispatch, and the sets written so far stay.\<close>

definition checkAndNotifyUsers :: "env \<Rightarrow> state \<Rightarrow> message list \<times> message list list \<times> state" where
  "checkAndNotifyUsers env st =
     (let r = rideLoop env (parkDataCache st) (userDeviceTokens st) (userPreferences st)
                ([], notifiedRides st)
      in case fst r of
           Some err \<Rightarrow> (fst (snd r), [], st\<lparr>notifiedRides := snd (snd r)\<rparr>)
         | None \<Rightarrow>
             (let sent = sendPushNotifications env (fst (snd r)) (userDeviceTokens st)
              in (fst (snd r), fst sent,
                  st\<lparr>notifiedRides := snd (snd r), userDeviceTokens := snd sent\<rparr>)))"

text \<open>The error with which the promise of \<open>checkAndNotifyUsers\<close> is rejected, if
  any.\<close>

definition checkAndNotifyUsersError :: "env \<Rightarrow> state \<Rightarrow> error option" where
  "checkAndNotifyUsersError env st =
     fst (rideLoop env (parkDataCache st) (userDeviceTokens st) (userPreferences st)
            ([], notifiedRides st))"

section \<open>Event reminders (checkEventReminders)\<close>

definition showReminder :: "env \<Rightarrow> string \<Rightarrow> showItem \<Rightarrow> int \<Rightarrow> message" where
  "showReminder env pushToken s showTime =
     \<lparr>to = pushToken, sound = ''default'', title = ''Time to Head to Show!'',
      body = showName s @ '' at '' @ formatTime env showTime @ '' - Leave now!'',
      data = ShowData (showId s), priority = ''high'', channelId = ''event-alerts''\<rparr>"

definition showFinalWarning :: "string \<Rightarrow> showItem \<Rightarrow> message" where
  "showFinalWarning pushToken s =
     \<lparr>to = pushToken, sound = ''default'', title = ''Show Starting Soon!'',
      body = showName s @ '' starts in 5 minutes!'',
      data = ShowWarningData (showId s), priority = ''high'', channelId = ''event-alerts''\<rparr>"

text \<open>A \<open>Date\<close> holds a time of at most 8.64e15 ms before or after the epoch;
  \<open>new Date(x)\<close> for a number outside this range is an invalid date, and every comparison
  with an invalid date is false.\<close>

definition validTime :: "int \<Rightarrow> bool" where
  "validTime x \<longleftrightarrow> \<bar>x\<bar> \<le> 8640000000000000"

text \<open>\<open>now >= new Date(x)\<close>.\<close>

definition reached :: "int \<Rightarrow> int \<Rightarrow> bool" where
  "reached now x \<longleftrightarrow> validTime x \<and> now \<ge> x"

text \<open>The body of \<open>for (const show of todayShows)\<close>. Times are milliseconds since the
  epoch. An unparsable \<open>selectedTime\<close> gives an invalid date and nothing happens.\<close>

definition remindShow :: "env \<Rightarrow> int \<Rightarrow> string \<Rightarrow> showItem \<Rightarrow> message list \<times> showItem" where
  "remindShow env now pushToken s =
     (case parseDate env (selectedTime s) of
        None \<Rightarrow> ([], s)
      | Some showTime \<Rightarrow>
          (let reminderTime = showTime - travelTime s * 60000;
               finalWarningTime = showTime - 5 * 60000;
               main = (if reached now reminderTime \<and> \<not> notified s
                       then ([showReminder env pushToken s showTime], s\<lparr>notified := True\<rparr>)
                       else ([], s));
               final = (if reached now finalWarningTime \<and> \<not> finalWarningNotified (snd main)
                        then ([showFinalWarning pushToken (snd main)],
                              (snd main)\<lparr>finalWarningNotified := True\<rparr>)
                        else ([], snd main))
           in (fst main @ fst final, snd final)))"

fun remindShows :: "env \<Rightarrow> int \<Rightarrow> string \<Rightarrow> showItem list \<Rightarrow> message list \<times> showItem list" where
  "remindShows env now pushToken [] = ([], [])"
| "remindShows env now pushToken (s # ss) =
     (let r = remindShow env now pushToken s; rs = remindShows env now pushToken ss
      in (fst r @ fst rs, snd r # snd rs))"

definition remindDining :: "env \<Rightarrow> int \<Rightarrow> string \<Rightarrow> diningItem \<Rightarrow> message list \<times> diningItem" where
  "remindDining env now pushToken d =
     (case parseDate env (diningTime d) of
        None \<Rightarrow> ([], d)
      | Some t \<Rightarrow>
          (let reminderTime = t - travelTime d * 60000
           in if reached now reminderTime \<and> \<not> notified d
              then ([\<lparr>to = pushToken, sound = ''default'', title = ''Dining Reminder!'',
                      body = restaurantName d @ '' reservation at '' @ formatTime env t
                               @ '' - Time to go!'',
                      data = DiningData (diningId d), priority = ''high'',
                      channelId = ''event-alerts''\<rparr>],
                    d\<lparr>notified := True\<rparr>)
              else ([], d)))"

fun remindDinings :: "env \<Rightarrow> int \<Rightarrow> string \<Rightarrow> diningItem list \<Rightarrow> message list \<times> diningItem list" where
  "remindDinings env now pushToken [] = ([], [])"
| "remindDinings env now pushToken (d # ds) =
     (let r = remindDining env now pushToken d; rs = remindDinings env now pushToken ds
      in (fst r @ fst rs, snd r # snd rs))"

definition remindLane :: "env \<Rightarrow> int \<Rightarrow> string \<Rightarrow> string \<times> lane \<Rightarrow> message list \<times> (string \<times> lane)" where
  "remindLane env now pushToken entry =
     (case parseDate env (returnTime (snd entry)) of
        None \<Rightarrow> ([], entry)
      | Some t \<Rightarrow>
          (let reminderTime = t - travelTime (snd entry) * 60000
           in if reached now reminderTime \<and> \<not> notified (snd entry)
              then ([\<lparr>to = pushToken, sound = ''default'', title = ''Lightning Lane Time!'',
                      body = ''Your Lightning Lane for '' @ laneRideName (snd entry) @ '' is at ''
                               @ formatTime env t @ '' - Head over now!'',
                      data = LightningLaneData (fst entry), priority = ''high'',
                      channelId = ''event-alerts''\<rparr>],
                    (fst entry, (snd entry)\<lparr>notified := True\<rparr>))
              else ([], entry)))"

fun remindLanes ::
  "env \<Rightarrow> int \<Rightarrow> string \<Rightarrow> (string \<times> lane) list \<Rightarrow> message list \<times> (string \<times> lane) list" where
  "remindLanes env now pushToken [] = ([], [])"
| "remindLanes env now pushToken (e # es) =
     (let r = remindLane env now pushToken e; rs = remindLanes env now pushToken es
      in (fst r @ fst rs, snd r # snd rs))"

text \<open>The three outer loops have one shape: skip the user without a valid token, take
  \<open>schedulesByDate[todayString]\<close> (nothing to do when it is absent), and run the inner loop
  \<open>f\<close>, which changes the entries of today in place.\<close>

definition remindUser ::
  "env \<Rightarrow> (string \<times> string) list \<Rightarrow> string \<Rightarrow> (string \<Rightarrow> 'a \<Rightarrow> message list \<times> 'a)
     \<Rightarrow> string \<times> (string \<times> 'a) list \<Rightarrow> message list \<times> (string \<times> (string \<times> 'a) list)" where
  "remindUser env tokens todayString f entry =
     (case validPushToken env tokens (fst entry) of
        None \<Rightarrow> ([], entry)
      | Some pushToken \<Rightarrow>
          (case map_of (snd entry) todayString of
             None \<Rightarrow> ([], entry)
           | Some today \<Rightarrow>
               (let r = f pushToken today
                in (fst r, (fst entry, AList.update todayString (snd r) (snd entry))))))"

definition remindStore ::
  "env \<Rightarrow> (string \<times> string) list \<Rightarrow> string \<Rightarrow> (string \<Rightarrow> 'a \<Rightarrow> message list \<times> 'a)
     \<Rightarrow> 'a schedule \<Rightarrow> message list \<times> 'a schedule" where
  "remindStore env tokens todayString f store =
     (let rs = map (remindUser env tokens todayString f) store
      in (concat (map fst rs), map snd rs))"

definition checkEventReminders ::
  "env \<Rightarrow> int \<Rightarrow> string \<Rightarrow> state \<Rightarrow> message list \<times> message list list \<times> state" where
  "checkEventReminders env now todayString st =
     (let tokens = userDeviceTokens st;
          s = remindStore env tokens todayString (remindShows env now) (userShowSchedules st);
          d = remindStore env tokens todayString (remindDinings env now) (userDiningSchedules st);
          l = remindStore env tokens todayString (remindLanes env now) (userLightningLanes st);
          messages = fst s @ fst d @ fst l;
          sent = sendPushNotifications env messages tokens
      in (messages, fst sent,
          st\<lparr>userShowSchedules := snd s, userDiningSchedules := snd d,
             userLightningLanes := snd l, userDeviceTokens := snd sent\<rparr>))"

text \<open>Reading one entry of a schedule store.\<close>

definition itemsAt :: "'a list schedule \<Rightarrow> string \<Rightarrow> string \<Rightarrow> 'a list" where
  "itemsAt store userId date =
     (case map_of store userId of
        None \<Rightarrow> []
      | Some byDate \<Rightarrow> (case map_of byDate date of None \<Rightarrow> [] | Some items \<Rightarrow> items))"

section \<open>Archival sweep (autoArchivePastDates)\<close>

text \<open>The body of \<open>if (date < today)\<close>. \<open>date < today\<close> compares two strings code unit
  by code unit, a proper prefix being smaller: the lexicographic order of \<open>string\<close>, which
  is the same order on ASCII strings such as dates.\<close>

definition archiveDate :: "string \<Rightarrow> string \<Rightarrow> showItem list \<Rightarrow> state \<Rightarrow> state" where
  "archiveDate userId date shows st =
     (let userArchive = (case map_of (archivedSchedules st) userId of None \<Rightarrow> [] | Some a \<Rightarrow> a);
          entry = \<lparr>archivedShows = shows,
                   archivedDining = itemsAt (userDiningSchedules st) userId date,
                   archivedLightningLanes = itemsAt (userLightningLanes st) userId date\<rparr>
      in st\<lparr>archivedSchedules :=
               AList.update userId (AList.update date entry userArchive) (archivedSchedules st),
             userShowSchedules := AList.map_entry userId (AList.delete date) (userShowSchedules st),
             userDiningSchedules :=
               AList.map_entry userId (AList.delete date) (userDiningSchedules st),
             userLightningLanes :=
               AList.map_entry userId (AList.delete date) (userLightningLanes st)\<rparr>)"

definition archiveUser :: "string \<Rightarrow> string \<times> (string \<times> showItem list) list \<Rightarrow> state \<Rightarrow> state" where
  "archiveUser today entry st =
     fold (\<lambda>de s. if fst de < today then archiveDate (fst entry) (fst de) (snd de) s else s)
       (snd entry) st"

definition autoArchivePastDates :: "string \<Rightarrow> state \<Rightarrow> state" where
  "autoArchivePastDates today st = fold (archiveUser today) (userShowSchedules st) st"

text \<open>The date keys a user has in a store.\<close>

definition datesOf :: "'a schedule \<Rightarrow> string \<Rightarrow> string list" where
  "datesOf store userId = (case map_of store userId of None \<Rightarrow> [] | Some byDate \<Rightarrow> map fst byDate)"

text \<open>The value a user has under a date in a store, if any.\<close>

definition entryAt :: "'a schedule \<Rightarrow> string \<Rightarrow> string \<Rightarrow> 'a option" where
  "entryAt store userId date =
     (case map_of store userId of None \<Rightarrow> None | Some byDate \<Rightarrow> map_of byDate date)"

text \<open>The pairs of user and date that the sweep visits: the past dates of the show
  store.\<close>

definition swept :: "string \<Rightarrow> 'a schedule \<Rightarrow> string \<Rightarrow> string \<Rightarrow> bool" where
  "swept today store u d \<longleftrightarrow>
     d < today \<and> (\<exists>e \<in> set store. fst e = u \<and> d \<in> fst ` set (snd e))"

section \<open>Updating a dining reservation (the only PUT route)\<close>

record putBody =
  bodyDate :: "string option"
  bodyTime :: "string option"
  bodyType :: "string option"
  bodyTravelTime :: "int option"

text \<open>A response: the HTTP status and the \<open>message\<close> or \<open>error\<close> text.\<close>

datatype response = Response nat string

text \<open>\<open>if (time) dining.time = time; if (type) dining.type = type;
  if (travelTime !== undefined) dining.travelTime = travelTime; dining.notified = false\<close>.\<close>

definition editDining :: "putBody \<Rightarrow> diningItem \<Rightarrow> diningItem" where
  "editDining b d =
     d\<lparr>diningTime := (case bodyTime b of None \<Rightarrow> diningTime d
                        | Some t \<Rightarrow> if t = [] then diningTime d else t),
       diningType := (case bodyType b of None \<Rightarrow> diningType d
                        | Some t \<Rightarrow> if t = [] then diningType d else t),
       travelTime := (case bodyTravelTime b of None \<Rightarrow> travelTime d | Some v \<Rightarrow> v),
       notified := False\<rparr>"

text \<open>\<open>find\<close> returns the first matching element, which is then changed in place.\<close>

fun updateFirst :: "('a \<Rightarrow> bool) \<Rightarrow> ('a \<Rightarrow> 'a) \<Rightarrow> 'a list \<Rightarrow> 'a list" where
  "updateFirst P f [] = []"
| "updateFirst P f (x # xs) = (if P x then f x # xs else x # updateFirst P f xs)"

definition putDining :: "string \<Rightarrow> string \<Rightarrow> putBody \<Rightarrow> state \<Rightarrow> response \<times> state" where
  "putDining userId dId b st =
     (case bodyDate b of
        None \<Rightarrow> (Response 404 ''Schedule not found'', st)
      | Some date \<Rightarrow>
          if date = [] then (Response 404 ''Schedule not found'', st)
          else
            (case map_of (userDiningSchedules st) userId of
               None \<Rightarrow> (Response 404 ''Schedule not found'', st)
             | Some byDate \<Rightarrow>
                 (case map_of byDate date of
                    None \<Rightarrow> (Response 404 ''Schedule not found'', st)
                  | Some ds \<Rightarrow>
                      (case List.find (\<lambda>d. diningId d = dId) ds of
                         None \<Rightarrow> (Response 404 ''Dining reservation not found'', st)
                       | Some dining \<Rightarrow>
                           (Response 200 ''Dining reservation updated'',
                            st\<lparr>userDiningSchedules :=
                                 AList.update userId
                                   (AList.update date
                                      (updateFirst (\<lambda>d. diningId d = dId) (editDining b) ds) byDate)
                                   (userDiningSchedules st)\<rparr>)))))"

text \<open>Dispatch of a PUT request. The application registers one PUT route,
  \<open>/api/users/:userId/dining/:diningId\<close>; when the path does not match it no handler
  runs and Express answers 404.\<close>

definition putRoute :: "string list" where
  "putRoute = [''api'', ''users'', '':userId'', ''dining'', '':diningId'']"

definition appPut :: "env \<Rightarrow> string list \<Rightarrow> putBody \<Rightarrow> state \<Rightarrow> response \<times> state" where
  "appPut env path b st =
     (case matchRoute env putRoute path of
        Some [userId, dId] \<Rightarrow> putDining userId dId b st
      | _ \<Rightarrow> (Response 404 ''Cannot PUT'', st))"

section \<open>Creating a show and a Lightning Lane entry\<close>

record postShowBody =
  psDate :: "string option"
  psShowId :: "string option"
  psShowName :: "string option"
  psSelectedTime :: "string option"
  psTravelTime :: "int option"

text \<open>\<open>POST /api/users/:userId/shows\<close>: a missing or empty field is answered with 400;
  otherwise the new show is pushed onto the list of the date.\<close>

definition postShow :: "string \<Rightarrow> postShowBody \<Rightarrow> state \<Rightarrow> response \<times> state" where
  "postShow userId b st =
     (case (psDate b, psShowId b, psShowName b, psSelectedTime b, psTravelTime b) of
        (Some date, Some sid, Some sname, Some time, Some tt) \<Rightarrow>
          if date = [] \<or> sid = [] \<or> sname = [] \<or> time = []
          then (Response 400 ''Missing required fields'', st)
          else
            (let byDate = (case map_of (userShowSchedules st) userId of
                             None \<Rightarrow> [] | Some x \<Rightarrow> x);
                 shows = (case map_of byDate date of None \<Rightarrow> [] | Some x \<Rightarrow> x);
                 new = \<lparr>travelTime = tt, notified = False, showId = sid, showName = sname,
                         selectedTime = time, finalWarningNotified = False\<rparr>
             in (Response 200 ''Show added to schedule'',
                 st\<lparr>userShowSchedules :=
                      AList.update userId (AList.update date (shows @ [new]) byDate)
                        (userShowSchedules st)\<rparr>))
      | _ \<Rightarrow> (Response 400 ''Missing required fields'', st))"

record postLaneBody =
  plDate :: "string option"
  plRideId :: "string option"
  plRideName :: "string option"
  plReturnTime :: "string option"
  plTravelTime :: "int option"

text \<open>\<open>POST /api/users/:userId/lightning-lane\<close>: the entry is stored under the ride id,
  replacing an entry the date already has for that ride.\<close>

definition postLightningLane :: "string \<Rightarrow> postLaneBody \<Rightarrow> state \<Rightarrow> response \<times> state" where
  "postLightningLane userId b st =
     (case (plDate b, plRideId b, plRideName b, plReturnTime b, plTravelTime b) of
        (Some date, Some rid, Some rname, Some time, Some tt) \<Rightarrow>
          if date = [] \<or> rid = [] \<or> rname = [] \<or> time = []
          then (Response 400 ''Missing required fields'', st)
          else
            (let byDate = (case map_of (userLightningLanes st) userId of
                             None \<Rightarrow> [] | Some x \<Rightarrow> x);
                 lanes = (case map_of byDate date of None \<Rightarrow> [] | Some x \<Rightarrow> x);
                 new = \<lparr>travelTime = tt, notified = False, laneRideName = rname,
                         returnTime = time\<rparr>
             in (Response 200 ''Lightning Lane time added'',
                 st\<lparr>userLightningLanes :=
                      AList.update userId (AList.update date (AList.update rid new lanes) byDate)
                        (userLightningLanes st)\<rparr>))
      | _ \<Rightarrow> (Response 400 ''Missing required fields'', st))"

section \<open>Example data\<close>

definition exRide :: ride where
  "exRide = \<lparr>rideId = ''R1'', rideName = ''Space Mountain'', currentWait = 25,
             status = ''OPERATING''\<rparr>"

definition exCache :: "(string \<times> parkData) list" where
  "exCache = [(''disneyland'', \<lparr>parkName = Some ''Disneyland Park'',
                                lands = [(''Tomorrowland'', [exRide])]\<rparr>)]"

definition exPrefs :: preferences where
  "exPrefs = [''R1'' \<mapsto> \<lparr>enabled = True, maxWait = 30\<rparr>]"

definition exCacheClosed :: "(string \<times> parkData) list" where
  "exCacheClosed = [(''disneyland'', \<lparr>parkName = Some ''Disneyland Park'',
       lands = [(''Tomorrowland'', [exRide\<lparr>status := ''CLOSED''\<rparr>])]\<rparr>)]"

text \<open>A path matcher for the examples: a pattern segment that starts with a colon
  takes any non-empty segment as its value, any other segment must be equal.\<close>

fun matchSegments :: "string list \<Rightarrow> string list \<Rightarrow> string list option" where
  "matchSegments [] [] = Some []"
| "matchSegments (p # ps) (s # ss) =
     (if take 1 p = '':'' then
        (if s = [] then None else map_option ((#) s) (matchSegments ps ss))
      else if p = s then matchSegments ps ss
      else None)"
| "matchSegments [] (s # ss) = None"
| "matchSegments (p # ps) [] = None"

text \<open>A gateway that sends one message per call, fails on its first call and reports
  every later address as no longer registered. The show time 14:00 UTC of 2024-06-01 is
  1717250400000 ms after the epoch.\<close>

definition exEnv :: env where
  "exEnv =
     \<lparr>isExpoPushToken = (\<lambda>t. t \<in> set [''ExponentPushToken[a]'', ''ExponentPushToken[b]'']),
      parseDate = (\<lambda>s. if s = ''2024-06-01T14:00:00Z'' then Some 1717250400000 else None),
      formatTime = (\<lambda>t. ''2:00 PM''),
      chunkPushNotifications = map (\<lambda>m. [m]),
      sendPushNotificationsAsync =
        (\<lambda>k chunk. if k = 0 then Threw
           else Tickets (map (\<lambda>m. \<lparr>ticketStatus = ''error'',
                                     detailsError = Some ''DeviceNotRegistered''\<rparr>) chunk)),
      matchRoute = matchSegments,
      exponentForm = (\<lambda>i. ''1e+21'')\<rparr>"

definition exShow :: showItem where
  "exShow = \<lparr>travelTime = 20, notified = False, showId = ''s1'', showName = ''Fantasmic'',
             selectedTime = ''2024-06-01T14:00:00Z'', finalWarningNotified = False\<rparr>"

definition exShowDone :: showItem where
  "exShowDone = \<lparr>travelTime = 3, notified = True, showId = ''s2'', showName = ''Parade'',
                 selectedTime = ''2024-06-01T14:00:00Z'', finalWarningNotified = True\<rparr>"

definition exDining :: diningItem where
  "exDining = \<lparr>travelTime = 15, notified = True, diningId = ''d1'',
               restaurantName = ''Blue Bayou'', diningTime = ''2024-06-01T14:00:00Z'',
               diningType = ''lunch''\<rparr>"

definition exLane :: lane where
  "exLane = \<lparr>travelTime = 10, notified = True, laneRideName = ''Space Mountain'',
             returnTime = ''2024-06-01T14:00:00Z''\<rparr>"

text \<open>User u1 has a valid token, u2 an invalid one, u3 none. User u3 has a dining
  reservation on 2024-05-30 and no show on that day.\<close>

definition exState :: state where
  "exState =
     \<lparr>parkDataCache = exCache,
      userPreferences = [(''u1'', Some exPrefs), (''u2'', Some exPrefs)],
      userDeviceTokens = [(''u1'', ''ExponentPushToken[a]''), (''u2'', ''not-a-token'')],
      notifiedRides = Map.empty,
      userShowSchedules =
        [(''u1'', [(''2024-05-31'', [exShowDone]), (''2024-06-01'', [exShow, exShowDone])])],
      userDiningSchedules =
        [(''u1'', [(''2024-05-31'', [exDining]), (''2024-06-01'', [exDining])]),
         (''u3'', [(''2024-05-30'', [exDining])])],
      userLightningLanes = [(''u1'', [(''2024-06-01'', [(''R1'', exLane)])])],
      archivedSchedules = []\<rparr>"

text \<open>User u0 has a valid token and stored preferences \<open>undefined\<close>, as after a
  request to the preferences route whose body has no \<open>preferences\<close>. User u1 comes
  after u0 and was last told about the ride R9.\<close>

definition exStateUndef :: state where
  "exStateUndef =
     exState\<lparr>userPreferences := [(''u0'', None), (''u1'', Some exPrefs)],
             userDeviceTokens := [(''u0'', ''ExponentPushToken[b]''),
                                  (''u1'', ''ExponentPushToken[a]'')],
             notifiedRides := [''u1'' \<mapsto> {''R9''}]\<rparr>"


definition exMessages :: "message list" where
  "exMessages =
     [showFinalWarning ''ExponentPushToken[a]'' exShow,
      showFinalWarning ''ExponentPushToken[b]'' exShow]"

definition exPut :: putBody where
  "exPut = \<lparr>bodyDate = Some ''2024-06-01'', bodyTime = Some ''2024-06-01T15:00:00Z'',
            bodyType = Some ''dinner'', bodyTravelTime = Some 30\<rparr>"

definition exPostShow :: postShowBody where
  "exPostShow = \<lparr>psDate = Some ''2024-06-01'', psShowId = Some ''s2'',
                 psShowName = Some ''Parade'', psSelectedTime = Some ''2024-06-01T15:00:00Z'',
                 psTravelTime = Some 30\<rparr>"

definition exPostLane :: postLaneBody where
  "exPostLane = \<lparr>plDate = Some ''2024-06-01'', plRideId = Some ''R1'',
                 plRideName = Some ''Space Mountain'',
                 plReturnTime = Some ''2024-06-01T15:00:00Z'', plTravelTime = Some 30\<rparr>"

section \<open>Properties of the ride readiness evaluation\<close>

lemma rideId_mkReadyRide [simp]: "rideId (mkReadyRide r l p) = rideId r"
  by (simp add: mkReadyRide_def)

lemma ids_readyRidesOf:
  "map rideId (readyRidesOf prefs cache)
     = map rideId (filter (qualifies prefs) (snapshotRides cache))"
  by (simp add: readyRidesOf_def parkReady_def landReady_def snapshotRides_def
      map_concat filter_concat comp_def)

lemma set_ids_readyRidesOf:
  "rideId ` set (readyRidesOf prefs cache)
     = rideId ` {r \<in> set (snapshotRides cache). qualifies prefs r}"
proof -
  have "set (map rideId (readyRidesOf prefs cache))
          = set (map rideId (filter (qualifies prefs) (snapshotRides cache)))"
    by (simp only: ids_readyRidesOf)
  then show ?thesis by simp
qed

lemma snd_evaluateRides:
  "snd (evaluateRides prefs cache prev) = rideId ` set (readyRidesOf prefs cache)"
  by (simp add: evaluateRides_def Let_def)

lemma newReady_empty:
  "fst (evaluateRides prefs cache (snd (evaluateRides prefs cache prev))) = []"
  by (auto simp: evaluateRides_def Let_def filter_empty_conv)

lemma readyRidesOf_no_rides: "snapshotRides cache = [] \<Longrightarrow> readyRidesOf prefs cache = []"
proof -
  assume "snapshotRides cache = []"
  then have "map rideId (readyRidesOf prefs cache) = []"
    by (simp add: ids_readyRidesOf)
  then show ?thesis by simp
qed

text \<open>
  For stored preferences that are an object, a ride id is among the ready ids exactly
  when the snapshot holds a ride with that id for which the object has an entry that is
  enabled, whose \<open>maxWait\<close> is at least the ride's \<open>currentWait\<close>, and whose status is
  OPERATING or DOWN; so a ride without an entry and an entry whose ride is not in the
  snapshot never qualify. The ready-rides route answers the same rides, and none for
  stored preferences that are \<open>undefined\<close> or \<open>null\<close>.
\<close>

lemma ready_ids_iff:
  "(i \<in> snd (evaluateRides prefs cache prev) \<longleftrightarrow>
      (\<exists>r \<in> set (snapshotRides cache). rideId r = i \<and>
         (\<exists>pref. prefs i = Some pref \<and> enabled pref \<and> currentWait r \<le> maxWait pref \<and>
            (status r = ''OPERATING'' \<or> status r = ''DOWN''))))
   \<and> (i \<in> rideId ` set (getReadyRides ups cache u) \<longleftrightarrow>
      (\<exists>prefs'. map_of ups u = Some (Some prefs') \<and>
         (\<exists>r \<in> set (snapshotRides cache). rideId r = i \<and>
            (\<exists>pref. prefs' i = Some pref \<and> enabled pref \<and> currentWait r \<le> maxWait pref \<and>
               (status r = ''OPERATING'' \<or> status r = ''DOWN'')))))"
proof -
  have ev: "snd (evaluateRides prefs cache prev)
              = rideId ` {r \<in> set (snapshotRides cache). qualifies prefs r}"
    by (simp add: evaluateRides_def Let_def set_ids_readyRidesOf)
  have q: "\<And>p. (i \<in> rideId ` {r \<in> set (snapshotRides cache). qualifies p r}) \<longleftrightarrow>
      (\<exists>r \<in> set (snapshotRides cache). rideId r = i \<and>
         (\<exists>pref. p i = Some pref \<and> enabled pref \<and> currentWait r \<le> maxWait pref \<and>
            (status r = ''OPERATING'' \<or> status r = ''DOWN'')))"
    by (auto simp: qualifies_def split: option.splits)
  have g: "i \<in> rideId ` set (getReadyRides ups cache u) \<longleftrightarrow>
      (\<exists>prefs'. map_of ups u = Some (Some prefs') \<and>
         i \<in> rideId ` {r \<in> set (snapshotRides cache). qualifies prefs' r})"
  proof (cases "map_of ups u")
    case None
    then show ?thesis by (simp add: getReadyRides_def)
  next
    case (Some po)
    then show ?thesis
      by (cases po) (simp_all add: getReadyRides_def set_ids_readyRidesOf)
  qed
  show ?thesis
    unfolding ev g q by simp
qed

text \<open>
  C3. The newly ready rides are the qualifying rides of the snapshot, in the snapshot's
  iteration order, without those whose id is in \<open>previouslyNotified\<close>, and the current
  ready ids are the ids of the qualifying rides. Evaluating again on the same snapshot
  and preferences, with \<open>previouslyNotified\<close> replaced by the first run's current ready
  ids, gives no newly ready ride, and a second run of the loop body for a user queues no
  further message. Instance: preference R1 (enabled, maxWait 30), snapshot R1 OPERATING
  with wait 25: from the empty set the newly ready ids are [R1]; from the set {R1} there
  are none.
\<close>

theorem newly_ready_idempotent:
  "map rideId (fst (evaluateRides prefs cache prev))
     = filter (\<lambda>i. i \<notin> prev) (map rideId (filter (qualifies prefs) (snapshotRides cache)))
   \<and> snd (evaluateRides prefs cache prev)
     = rideId ` set (filter (qualifies prefs) (snapshotRides cache))
   \<and> fst (evaluateRides prefs cache (snd (evaluateRides prefs cache prev))) = []
   \<and> fst (checkUser env cache tokens e (checkUser env cache tokens e acc))
     = fst (checkUser env cache tokens e acc)
   \<and> map rideId (fst (evaluateRides exPrefs exCache {})) = [''R1'']
   \<and> fst (evaluateRides exPrefs exCache {''R1''}) = []"
proof -
  have a: "map rideId (fst (evaluateRides prefs cache prev))
     = filter (\<lambda>i. i \<notin> prev) (map rideId (filter (qualifies prefs) (snapshotRides cache)))"
    by (simp add: evaluateRides_def Let_def filter_map comp_def flip: ids_readyRidesOf)
  have b: "snd (evaluateRides prefs cache prev)
     = rideId ` set (filter (qualifies prefs) (snapshotRides cache))"
    by (simp add: evaluateRides_def Let_def set_ids_readyRidesOf)
  have c: "fst (evaluateRides prefs cache (snd (evaluateRides prefs cache prev))) = []"
    by (rule newReady_empty)
  have d: "fst (checkUser env cache tokens e (checkUser env cache tokens e acc))
     = fst (checkUser env cache tokens e acc)"
  proof (cases "validPushToken env tokens (fst e)")
    case None
    then show ?thesis by (simp add: checkUser_def)
  next
    case (Some tok)
    then show ?thesis
      by (simp add: checkUser_def Let_def rideMessage_def newReady_empty)
  qed
  have e1: "map rideId (fst (evaluateRides exPrefs exCache {})) = [''R1'']"
    by (simp add: evaluateRides_def Let_def readyRidesOf_def parkReady_def landReady_def
        exCache_def exPrefs_def exRide_def qualifies_def)
  have e2: "fst (evaluateRides exPrefs exCache {''R1''}) = []"
    by (simp add: evaluateRides_def Let_def readyRidesOf_def parkReady_def landReady_def
        exCache_def exPrefs_def exRide_def qualifies_def)
  from a b c d e1 e2 show ?thesis by blast
qed

section \<open>Properties of the notification cycle\<close>

lemma checkUser_skip:
  "validPushToken env tokens (fst e) = None \<Longrightarrow> checkUser env cache tokens e acc = acc"
  by (simp add: checkUser_def)

lemma checkUser_other:
  "fst e \<noteq> u \<Longrightarrow> snd (checkUser env cache tokens e acc) u = snd acc u"
  by (simp add: checkUser_def Let_def split: option.splits)

lemma checkUser_valid:
  "validPushToken env tokens (fst e) = Some tok \<Longrightarrow>
     snd (checkUser env cache tokens e acc) (fst e)
       = Some (rideId ` set (readyRidesOf (snd e) cache))"
  by (simp add: checkUser_def Let_def snd_evaluateRides)

lemma checkUser_messages:
  "fst (checkUser env cache tokens (fst e, prefsOf e) acc)
     = fst acc @ queuedFor env cache tokens (snd acc) e"
  by (simp add: checkUser_def queuedFor_def Let_def split: option.splits)

lemma queuedFor_other:
  "fst e' \<noteq> fst e \<Longrightarrow>
   queuedFor env cache tokens (snd (checkUser env cache tokens (fst e, p) acc)) e'
     = queuedFor env cache tokens (snd acc) e'"
proof -
  assume "fst e' \<noteq> fst e"
  then have h: "snd (checkUser env cache tokens (fst e, p) acc) (fst e') = snd acc (fst e')"
    by (intro checkUser_other) auto
  show ?thesis
    unfolding queuedFor_def by (simp only: h)
qed

text \<open>The loop either throws at its first throwing entry or runs the body for every
  entry.\<close>

lemma checkEntry_eq:
  "checkEntry env cache tokens e acc
     = (if throwsAt env cache tokens e then Inl TypeError
        else Inr (checkUser env cache tokens (fst e, prefsOf e) acc))"
  by (auto simp: checkEntry_def throwsAt_def prefsOf_def checkUser_def split: option.splits)

lemma rideLoop_eq:
  "rideLoop env cache tokens es acc
     = ((if \<exists>e \<in> set es. throwsAt env cache tokens e then Some TypeError else None),
        fold (\<lambda>e. checkUser env cache tokens (fst e, prefsOf e))
          (takeWhile (\<lambda>e. \<not> throwsAt env cache tokens e) es) acc)"
  by (induction es arbitrary: acc) (simp_all add: checkEntry_eq)

lemma fold_checkUser_absent:
  "u \<notin> fst ` set es \<Longrightarrow>
   snd (fold (\<lambda>e. checkUser env cache tokens (fst e, g e)) es acc) u = snd acc u"
  by (induction es arbitrary: acc) (auto simp: checkUser_other)

lemma fold_checkUser_present:
  "distinct (map fst es) \<Longrightarrow> map_of es u = Some p \<Longrightarrow>
   validPushToken env tokens u = Some tok \<Longrightarrow>
   snd (fold (\<lambda>e. checkUser env cache tokens (fst e, g e)) es acc) u
     = Some (rideId ` set (readyRidesOf (g (u, p)) cache))"
proof (induction es arbitrary: acc)
  case Nil
  then show ?case by simp
next
  case (Cons e es)
  show ?case
  proof (cases "fst e = u")
    case True
    obtain a b where e: "e = (a, b)" by (cases e)
    from True e have a: "a = u" by simp
    with Cons.prems(2) e have "b = p" by simp
    with e a have p: "e = (u, p)" by simp
    from True Cons.prems(1) have nin: "u \<notin> fst ` set es"
      by auto
    from Cons.prems(3) have "validPushToken env tokens (fst (u, g (u, p))) = Some tok" by simp
    from checkUser_valid [OF this]
    have "snd (checkUser env cache tokens (u, g (u, p)) acc) u
            = Some (rideId ` set (readyRidesOf (g (u, p)) cache))"
      by simp
    with nin p show ?thesis by (simp add: fold_checkUser_absent)
  next
    case False
    with Cons.prems have "map_of es u = Some p" "distinct (map fst es)"
      by (cases e, auto)+
    with Cons.IH Cons.prems(3) show ?thesis by simp
  qed
qed

lemma fold_checkUser_messages:
  "distinct (map fst es) \<Longrightarrow>
   fst (fold (\<lambda>e. checkUser env cache tokens (fst e, prefsOf e)) es acc)
     = fst acc @ concat (map (queuedFor env cache tokens (snd acc)) es)"
proof (induction es arbitrary: acc)
  case Nil
  then show ?case by simp
next
  case (Cons e es)
  let ?acc' = "checkUser env cache tokens (fst e, prefsOf e) acc"
  from Cons.prems have d: "distinct (map fst es)" and "fst e \<notin> fst ` set es"
    by simp_all
  then have n: "\<forall>e' \<in> set es. fst e' \<noteq> fst e"
    by (metis imageI)
  have "map (queuedFor env cache tokens (snd ?acc')) es
          = map (queuedFor env cache tokens (snd acc)) es"
    using n by (intro map_cong refl queuedFor_other) simp
  with Cons.IH [OF d, of ?acc'] show ?case
    by (simp add: checkUser_messages)
qed

lemma validPushToken_Some:
  "validPushToken env tokens u = Some t \<Longrightarrow>
     t \<noteq> [] \<and> isExpoPushToken env t \<and> map_of tokens u = Some t"
  by (auto simp: validPushToken_def split: option.splits if_splits)

lemma to_rideMessage: "m \<in> set (rideMessage env tok rs) \<Longrightarrow> to m = tok"
  by (auto simp: rideMessage_def split: list.splits)

lemma checkUser_to:
  "\<forall>m \<in> set (fst acc). to m \<noteq> [] \<and> isExpoPushToken env (to m) \<Longrightarrow>
   \<forall>m \<in> set (fst (checkUser env cache tokens e acc)). to m \<noteq> [] \<and> isExpoPushToken env (to m)"
  by (auto simp: checkUser_def Let_def split: option.splits
      dest!: validPushToken_Some to_rideMessage)

lemma fold_checkUser_to:
  "\<forall>m \<in> set (fst acc). to m \<noteq> [] \<and> isExpoPushToken env (to m) \<Longrightarrow>
   \<forall>m \<in> set (fst (fold (\<lambda>e. checkUser env cache tokens (fst e, g e)) es acc)).
      to m \<noteq> [] \<and> isExpoPushToken env (to m)"
proof (induction es arbitrary: acc)
  case Nil
  then show ?case by simp
next
  case (Cons e es)
  have "\<forall>m \<in> set (fst (checkUser env cache tokens (fst e, g e) acc)).
          to m \<noteq> [] \<and> isExpoPushToken env (to m)"
    by (rule checkUser_to [OF Cons.prems])
  from Cons.IH [OF this] show ?case by simp
qed

lemma rideLoop_skip:
  "validPushToken env tokens u = None \<Longrightarrow>
   rideLoop env cache tokens es acc
     = rideLoop env cache tokens (filter (\<lambda>e. fst e \<noteq> u) es) acc"
  by (induction es arbitrary: acc) (auto simp: checkEntry_def split: sum.splits)

lemma checkAndNotifyUsers_parts:
  "fst (checkAndNotifyUsers env st)
     = fst (snd (rideLoop env (parkDataCache st) (userDeviceTokens st) (userPreferences st)
                   ([], notifiedRides st)))"
  "notifiedRides (snd (snd (checkAndNotifyUsers env st)))
     = snd (snd (rideLoop env (parkDataCache st) (userDeviceTokens st) (userPreferences st)
                   ([], notifiedRides st)))"
  by (simp_all add: checkAndNotifyUsers_def Let_def split: option.splits)

text \<open>
  C2 at a concrete state. User u0 holds a valid token and the stored preferences of u0
  are \<open>undefined\<close>, so no ride has a preference entry; the snapshot holds one ride. The
  ready-rides route answers the empty list for u0. The notification cycle reads
  \<open>preferences[ride.id]\<close> without the guard of that route: the loop body throws a
  TypeError at u0 and \<open>checkAndNotifyUsers\<close> is rejected with it.
\<close>

theorem undefined_preferences_throw:
  "map_of (userPreferences exStateUndef) ''u0'' = Some None
   \<and> validPushToken exEnv (userDeviceTokens exStateUndef) ''u0'' = Some ''ExponentPushToken[b]''
   \<and> snapshotRides (parkDataCache exStateUndef) = [exRide]
   \<and> getReadyRides (userPreferences exStateUndef) (parkDataCache exStateUndef) ''u0'' = []
   \<and> checkEntry exEnv (parkDataCache exStateUndef) (userDeviceTokens exStateUndef)
        (''u0'', None) ([], notifiedRides exStateUndef) = Inl TypeError
   \<and> checkAndNotifyUsersError exEnv exStateUndef = Some TypeError"
  by (simp add: exStateUndef_def exState_def exEnv_def exCache_def snapshotRides_def
      validPushToken_def getReadyRides_def checkEntry_def checkAndNotifyUsersError_def)

text \<open>
  When the loop does not throw, the set of every user with a valid token is replaced by
  the ids found qualifying in this cycle, whatever the gateway answers, and an id that is
  not in that set and qualifies at the next evaluation is newly ready again.
\<close>

lemma notified_set_replaced:
  assumes "distinct (map fst (userPreferences st))"
    and "map_of (userPreferences st) u = Some (Some prefs)"
    and "validPushToken env (userDeviceTokens st) u = Some tok"
    and "checkAndNotifyUsersError env st = None"
  shows "notifiedRides (snd (snd (checkAndNotifyUsers env st))) u
           = Some (rideId ` set (filter (qualifies prefs) (snapshotRides (parkDataCache st))))
    \<and> (i \<in> rideId ` set (filter (qualifies prefs') (snapshotRides cache')) \<and>
        i \<notin> rideId ` set (filter (qualifies prefs) (snapshotRides (parkDataCache st)))
       \<longrightarrow> i \<in> rideId ` set (fst (evaluateRides prefs' cache'
               (rideId ` set (filter (qualifies prefs) (snapshotRides (parkDataCache st)))))))"
proof -
  let ?P = "\<lambda>e. \<not> throwsAt env (parkDataCache st) (userDeviceTokens st) e"
  from assms(4) have "\<forall>e \<in> set (userPreferences st). ?P e"
    by (simp add: checkAndNotifyUsersError_def rideLoop_eq split: if_splits)
  then have tw: "takeWhile ?P (userPreferences st) = userPreferences st"
    by (simp add: takeWhile_eq_all_conv)
  have "notifiedRides (snd (snd (checkAndNotifyUsers env st))) u
          = Some (rideId ` set (readyRidesOf (prefsOf (u, Some prefs)) (parkDataCache st)))"
    using fold_checkUser_present [OF assms(1-3), of _ prefsOf]
    by (simp add: checkAndNotifyUsers_parts rideLoop_eq tw)
  then have n: "notifiedRides (snd (snd (checkAndNotifyUsers env st))) u
          = Some (rideId ` set (readyRidesOf prefs (parkDataCache st)))"
    by (simp add: prefsOf_def)
  have "rideId ` set (fst (evaluateRides prefs' cache' N))
      = rideId ` set (filter (qualifies prefs') (snapshotRides cache')) - N" for N
  proof -
    have "set (map rideId (fst (evaluateRides prefs' cache' N)))
      = set (filter (\<lambda>i. i \<notin> N) (map rideId (filter (qualifies prefs') (snapshotRides cache'))))"
      by (simp add: evaluateRides_def Let_def filter_map comp_def flip: ids_readyRidesOf)
    then show ?thesis by auto
  qed
  with n show ?thesis
    by (simp add: set_ids_readyRidesOf)
qed

text \<open>
  C4 at a concrete state. User u1 holds a valid token, the ride R1 qualifies for u1 in
  this cycle and the set of u1 is {R9} from an earlier cycle. User u0, who comes before
  u1, has stored preferences \<open>undefined\<close> (the state of C2): the loop throws at u0, the
  body never runs for u1, and after the cycle the set of u1 is still {R9} instead of the
  qualifying set {R1}; nothing is handed to the gateway.
\<close>

theorem aborted_cycle_keeps_stale_set:
  "map_of (userPreferences exStateUndef) ''u1'' = Some (Some exPrefs)
   \<and> validPushToken exEnv (userDeviceTokens exStateUndef) ''u1'' = Some ''ExponentPushToken[a]''
   \<and> snd (evaluateRides exPrefs (parkDataCache exStateUndef) {''R9''}) = {''R1''}
   \<and> notifiedRides exStateUndef ''u1'' = Some {''R9''}
   \<and> notifiedRides (snd (snd (checkAndNotifyUsers exEnv exStateUndef))) ''u1'' = Some {''R9''}
   \<and> fst (snd (checkAndNotifyUsers exEnv exStateUndef)) = []"
proof -
  have e: "snd (evaluateRides exPrefs exCache {''R9''}) = {''R1''}"
    by (simp add: evaluateRides_def Let_def readyRidesOf_def parkReady_def landReady_def
        exCache_def exPrefs_def exRide_def qualifies_def)
  have r: "rideLoop exEnv (parkDataCache exStateUndef) (userDeviceTokens exStateUndef)
             (userPreferences exStateUndef) ([], notifiedRides exStateUndef)
           = (Some TypeError, [], notifiedRides exStateUndef)"
    by (simp add: exStateUndef_def exState_def exEnv_def exCache_def snapshotRides_def
        validPushToken_def checkEntry_def)
  have c: "parkDataCache exStateUndef = exCache"
    "notifiedRides exStateUndef ''u1'' = Some {''R9''}"
    "map_of (userPreferences exStateUndef) ''u1'' = Some (Some exPrefs)"
    "validPushToken exEnv (userDeviceTokens exStateUndef) ''u1'' = Some ''ExponentPushToken[a]''"
    by (simp_all add: exStateUndef_def exState_def exEnv_def validPushToken_def)
  have "notifiedRides (snd (snd (checkAndNotifyUsers exEnv exStateUndef))) ''u1'' = Some {''R9''}
      \<and> fst (snd (checkAndNotifyUsers exEnv exStateUndef)) = []"
    unfolding checkAndNotifyUsers_def Let_def r by (simp add: c)
  with c e show ?thesis by simp
qed

text \<open>
  C10. A user without a device token, or whose token is empty or not an Expo push token,
  is skipped by the ride cycle: the previously-notified set of that user is left as it
  was, the queued messages are those of the cycle run without that user's preferences,
  and no queued message is addressed to the user's stored token.
\<close>

theorem skipped_user_untouched:
  assumes "validPushToken env (userDeviceTokens st) u = None"
  shows "notifiedRides (snd (snd (checkAndNotifyUsers env st))) u = notifiedRides st u
    \<and> fst (checkAndNotifyUsers env st)
        = fst (checkAndNotifyUsers env
                 (st\<lparr>userPreferences := filter (\<lambda>e. fst e \<noteq> u) (userPreferences st)\<rparr>))
    \<and> (\<forall>m \<in> set (fst (checkAndNotifyUsers env st)).
          map_of (userDeviceTokens st) u \<noteq> Some (to m))"
proof -
  let ?loop = "rideLoop env (parkDataCache st) (userDeviceTokens st)"
  let ?ups = "userPreferences st"
  let ?P = "\<lambda>e. \<not> throwsAt env (parkDataCache st) (userDeviceTokens st) e"
  have eq: "?loop ?ups ([], notifiedRides st)
              = ?loop (filter (\<lambda>e. fst e \<noteq> u) ?ups) ([], notifiedRides st)"
    by (rule rideLoop_skip [OF assms])
  have "u \<notin> fst ` set (takeWhile ?P (filter (\<lambda>e. fst e \<noteq> u) ?ups))"
    by (auto dest!: set_takeWhileD)
  from fold_checkUser_absent [OF this]
  have "snd (snd (?loop (filter (\<lambda>e. fst e \<noteq> u) ?ups) ([], notifiedRides st))) u
          = notifiedRides st u"
    unfolding rideLoop_eq by simp
  then have a: "snd (snd (?loop ?ups ([], notifiedRides st))) u = notifiedRides st u"
    by (simp only: eq)
  have "\<forall>m \<in> set (fst (snd (?loop ?ups ([], notifiedRides st)))).
          to m \<noteq> [] \<and> isExpoPushToken env (to m)"
    unfolding rideLoop_eq snd_conv by (rule fold_checkUser_to) simp
  moreover have "map_of (userDeviceTokens st) u = Some t \<Longrightarrow> t = [] \<or> \<not> isExpoPushToken env t"
    for t
    using assms by (auto simp: validPushToken_def split: if_splits)
  ultimately have c: "\<forall>m \<in> set (fst (snd (?loop ?ups ([], notifiedRides st)))).
          map_of (userDeviceTokens st) u \<noteq> Some (to m)"
    by blast
  from a eq c show ?thesis
    by (simp add: checkAndNotifyUsers_parts)
qed

theorem skipped_user_untouched_witness:
  "validPushToken exEnv (userDeviceTokens exState) ''u2'' = None
   \<and> notifiedRides (snd (snd (checkAndNotifyUsers exEnv exState))) ''u2'' = notifiedRides exState ''u2''
   \<and> map to (fst (checkAndNotifyUsers exEnv exState)) = [''ExponentPushToken[a]'']"
proof -
  have v: "validPushToken exEnv (userDeviceTokens exState) ''u2'' = None"
    by (simp add: exState_def exEnv_def validPushToken_def)
  have v1: "validPushToken exEnv (userDeviceTokens exState) ''u1'' = Some ''ExponentPushToken[a]''"
    by (simp add: exState_def exEnv_def validPushToken_def)
  have f: "filter (\<lambda>e. fst e \<noteq> ''u2'') (userPreferences exState) = [(''u1'', Some exPrefs)]"
    by (simp add: exState_def)
  have c: "parkDataCache exState = exCache" "notifiedRides exState = Map.empty"
    by (simp_all add: exState_def)
  have e: "fst (evaluateRides exPrefs exCache {})
             = [mkReadyRide exRide ''Tomorrowland'' (Some ''Disneyland Park'')]"
    by (simp add: evaluateRides_def Let_def readyRidesOf_def parkReady_def landReady_def
        exCache_def exPrefs_def exRide_def qualifies_def mkReadyRide_def)
  have "map to (fst (checkAndNotifyUsers exEnv
          (exState\<lparr>userPreferences := filter (\<lambda>e. fst e \<noteq> ''u2'') (userPreferences exState)\<rparr>)))
        = [''ExponentPushToken[a]'']"
    unfolding f
    by (simp add: checkAndNotifyUsers_parts checkEntry_def checkUser_def Let_def v1 c e
        rideMessage_def)
  with skipped_user_untouched [OF v] v show ?thesis by simp
qed

lemma digits10_examples:
  "digits10 (Suc 0) = ''1''" "digits10 1 = ''1''" "digits10 2 = ''2''" "digits10 25 = ''25''"
  by code_simp+

lemma showInt_small: "0 \<le> i \<Longrightarrow> i < 10 ^ 21 \<Longrightarrow> showInt env i = digits10 (nat i)"
  by (simp add: showInt_def)

text \<open>
  C8. The messages that \<open>checkAndNotifyUsers\<close> queues are, user by user in the order of
  the loop and up to the entry at which the loop throws, if any, the ride message built
  from the user's newly ready rides in evaluator order. For one newly ready ride the
  body names the ride and its current wait; for two it names the first and says
  \<open>and 1 other ride is ready!\<close>; for three or more it names the first and says
  \<open>and N other rides are ready!\<close> with N the number of remaining rides. No message is
  built for an empty list. When the loop does not throw, the queued messages are the ones
  dispatched.
\<close>

theorem ride_message_text:
  assumes "distinct (map fst (userPreferences st))"
  shows "fst (checkAndNotifyUsers env st)
           = concat (map
               (\<lambda>e. case validPushToken env (userDeviceTokens st) (fst e) of
                       None \<Rightarrow> []
                     | Some pushToken \<Rightarrow>
                         rideMessage env pushToken
                           (fst (evaluateRides (prefsOf e) (parkDataCache st)
                              (case notifiedRides st (fst e) of None \<Rightarrow> {} | Some s \<Rightarrow> s))))
               (takeWhile (\<lambda>e. \<not> throwsAt env (parkDataCache st) (userDeviceTokens st) e)
                  (userPreferences st)))
    \<and> map body (rideMessage env tok [r])
         = [rideName r @ '' is now '' @ showInt env (currentWait r) @ '' min wait!'']
    \<and> map body (rideMessage env tok [r1, r2]) = [rideName r1 @ '' and 1 other ride is ready!'']
    \<and> map body (rideMessage env tok (r1 # r2 # r3 # rs))
         = [rideName r1 @ '' and '' @ showInt env (int (length rs) + 2)
              @ '' other rides are ready!'']
    \<and> (0 \<le> i \<and> i < 10 ^ 21 \<longrightarrow> showInt env i = digits10 (nat i))
    \<and> rideMessage env tok [] = []
    \<and> (checkAndNotifyUsersError env st = None \<longrightarrow>
          fst (snd (checkAndNotifyUsers env st))
            = fst (sendPushNotifications env (fst (checkAndNotifyUsers env st))
                     (userDeviceTokens st)))"
proof -
  let ?P = "\<lambda>e. \<not> throwsAt env (parkDataCache st) (userDeviceTokens st) e"
  have q: "(\<lambda>e. case validPushToken env (userDeviceTokens st) (fst e) of
                       None \<Rightarrow> []
                     | Some pushToken \<Rightarrow>
                         rideMessage env pushToken
                           (fst (evaluateRides (prefsOf e) (parkDataCache st)
                              (case notifiedRides st (fst e) of None \<Rightarrow> {} | Some s \<Rightarrow> s))))
           = queuedFor env (parkDataCache st) (userDeviceTokens st) (notifiedRides st)"
    by (simp add: queuedFor_def fun_eq_iff)
  have d: "distinct (map fst (takeWhile ?P (userPreferences st)))"
    using assms by (metis distinct_append map_append takeWhile_dropWhile_id)
  have a: "fst (checkAndNotifyUsers env st)
             = concat (map (queuedFor env (parkDataCache st) (userDeviceTokens st)
                              (notifiedRides st))
                 (takeWhile ?P (userPreferences st)))"
    using fold_checkUser_messages [OF d, of env "parkDataCache st" "userDeviceTokens st"
        "([], notifiedRides st)"]
    by (simp add: checkAndNotifyUsers_parts rideLoop_eq)
  have one: "showInt env 1 = ''1''"
    by (simp add: showInt_def digits10_examples)
  have b1: "map body (rideMessage env tok [r])
         = [rideName r @ '' is now '' @ showInt env (currentWait r) @ '' min wait!'']"
    by (simp add: rideMessage_def rideBody_def)
  have b2: "map body (rideMessage env tok [r1, r2])
         = [rideName r1 @ '' and 1 other ride is ready!'']"
    by (simp add: rideMessage_def rideBody_def one)
  have b3: "map body (rideMessage env tok (r1 # r2 # r3 # rs))
         = [rideName r1 @ '' and '' @ showInt env (int (length rs) + 2)
              @ '' other rides are ready!'']"
    by (simp add: rideMessage_def rideBody_def add.commute)
  have s: "0 \<le> i \<and> i < 10 ^ 21 \<longrightarrow> showInt env i = digits10 (nat i)"
    by (simp add: showInt_small)
  have e: "rideMessage env tok [] = []"
    by (simp add: rideMessage_def)
  have c: "checkAndNotifyUsersError env st = None \<longrightarrow>
          fst (snd (checkAndNotifyUsers env st))
            = fst (sendPushNotifications env (fst (checkAndNotifyUsers env st))
                     (userDeviceTokens st))"
    by (simp add: checkAndNotifyUsersError_def checkAndNotifyUsers_def Let_def)
  from a b1 b2 b3 s e c show ?thesis
    unfolding q by blast
qed

theorem ride_message_text_witness:
  "distinct (map fst (userPreferences exState))
   \<and> map body (fst (checkAndNotifyUsers exEnv exState)) = [''Space Mountain is now 25 min wait!'']
   \<and> map body (rideMessage exEnv ''ExponentPushToken[a]''
        [mkReadyRide exRide ''Tomorrowland'' None, mkReadyRide exRide ''Tomorrowland'' None,
         mkReadyRide exRide ''Tomorrowland'' None])
       = [''Space Mountain and 2 other rides are ready!'']
   \<and> showInt exEnv 25 = ''25''
   \<and> checkAndNotifyUsersError exEnv exState = None
   \<and> map (map body) (fst (snd (checkAndNotifyUsers exEnv exState)))
       = [[''Space Mountain is now 25 min wait!'']]"
proof -
  have d: "distinct (map fst (userPreferences exState))"
    by (simp add: exState_def)
  have n: "\<forall>e \<in> set (userPreferences exState).
             \<not> throwsAt exEnv (parkDataCache exState) (userDeviceTokens exState) e"
    by (simp add: throwsAt_def exState_def)
  then have tw: "takeWhile (\<lambda>e. \<not> throwsAt exEnv (parkDataCache exState)
                                 (userDeviceTokens exState) e) (userPreferences exState)
                   = userPreferences exState"
    by (simp add: takeWhile_eq_all_conv)
  have w: "showInt exEnv 25 = ''25''" "showInt exEnv 2 = ''2''"
    by (simp_all add: showInt_def digits10_examples)
  have v: "validPushToken exEnv (userDeviceTokens exState) ''u1'' = Some ''ExponentPushToken[a]''"
    "validPushToken exEnv (userDeviceTokens exState) ''u2'' = None"
    by (simp_all add: exState_def exEnv_def validPushToken_def)
  have e: "fst (evaluateRides exPrefs exCache {})
             = [mkReadyRide exRide ''Tomorrowland'' (Some ''Disneyland Park'')]"
    by (simp add: evaluateRides_def Let_def readyRidesOf_def parkReady_def landReady_def
        exCache_def exPrefs_def exRide_def qualifies_def mkReadyRide_def)
  have u: "userPreferences exState = [(''u1'', Some exPrefs), (''u2'', Some exPrefs)]"
    "parkDataCache exState = exCache" "notifiedRides exState = Map.empty"
    by (simp_all add: exState_def)
  have err: "checkAndNotifyUsersError exEnv exState = None"
    by (simp add: checkAndNotifyUsersError_def rideLoop_eq n)
  note t = ride_message_text [OF d, of exEnv "''ExponentPushToken[a]''"
      "mkReadyRide exRide ''Tomorrowland'' None" "mkReadyRide exRide ''Tomorrowland'' None"
      "mkReadyRide exRide ''Tomorrowland'' None" "mkReadyRide exRide ''Tomorrowland'' None"
      "[]" 25]
  from t have q: "fst (checkAndNotifyUsers exEnv exState)
      = rideMessage exEnv ''ExponentPushToken[a]''
          [mkReadyRide exRide ''Tomorrowland'' (Some ''Disneyland Park'')]"
    unfolding tw by (simp add: u v prefsOf_def e)
  from t have b1: "map body (rideMessage exEnv ''ExponentPushToken[a]''
          [mkReadyRide exRide ''Tomorrowland'' (Some ''Disneyland Park'')])
       = [''Space Mountain is now 25 min wait!'']"
    by (simp add: rideMessage_def rideBody_def w mkReadyRide_def exRide_def)
  from t have b3: "map body (rideMessage exEnv ''ExponentPushToken[a]''
        [mkReadyRide exRide ''Tomorrowland'' None, mkReadyRide exRide ''Tomorrowland'' None,
         mkReadyRide exRide ''Tomorrowland'' None])
       = [''Space Mountain and 2 other rides are ready!'']"
    by (simp add: w mkReadyRide_def exRide_def)
  from t err have "fst (snd (checkAndNotifyUsers exEnv exState))
      = fst (sendPushNotifications exEnv (fst (checkAndNotifyUsers exEnv exState))
               (userDeviceTokens exState))"
    by simp
  then have s: "map (map body) (fst (snd (checkAndNotifyUsers exEnv exState)))
       = [[''Space Mountain is now 25 min wait!'']]"
    unfolding q using b1
    by (simp add: sendPushNotifications_def rideMessage_def exEnv_def Let_def)
  from d q b1 b3 w err s show ?thesis by simp
qed

section \<open>Properties of the dispatcher\<close>


lemma removeToken_absent: "address \<notin> snd ` set (removeToken address tokens)"
  by (auto simp: removeToken_def)

lemma removeToken_noop: "address \<notin> snd ` set tokens \<Longrightarrow> removeToken address tokens = tokens"
  by (induction tokens) (auto simp: removeToken_def)

lemma removeToken_subset: "set (removeToken address tokens) \<subseteq> set tokens"
  by (auto simp: removeToken_def)

lemma forEachTicket_subset: "set (forEachTicket chunk index ts tokens) \<subseteq> set tokens"
proof (induction ts arbitrary: index tokens)
  case Nil
  then show ?case by simp
next
  case (Cons t ts)
  have "set (forEachTicket chunk (Suc index) ts (removeToken a tokens)) \<subseteq> set tokens" for a
    using Cons.IH [of "Suc index" "removeToken a tokens"] removeToken_subset [of a tokens]
    by blast
  moreover have "forEachTicket chunk (Suc index) ts [] = []"
    using Cons.IH [of "Suc index" "[]"] by simp
  ultimately show ?case
    using Cons.IH [of "Suc index" tokens] by simp
qed

lemma forEachTicket_removes:
  "j < length ts \<Longrightarrow> index + j < length chunk \<Longrightarrow>
   ticketStatus (ts ! j) = ''error'' \<Longrightarrow> detailsError (ts ! j) = Some ''DeviceNotRegistered'' \<Longrightarrow>
   to (chunk ! (index + j)) \<notin> snd ` set (forEachTicket chunk index ts tokens)"
proof (induction ts arbitrary: index j tokens)
  case Nil
  then show ?case by simp
next
  case (Cons t ts)
  show ?case
  proof (cases j)
    case 0
    with Cons.prems have i: "index < length chunk"
      and e: "ticketStatus t = ''error''" "detailsError t = Some ''DeviceNotRegistered''"
      by simp_all
    have "set (forEachTicket chunk (Suc index) ts (removeToken (to (chunk ! index)) tokens))
            \<subseteq> set (removeToken (to (chunk ! index)) tokens)"
      by (rule forEachTicket_subset)
    with removeToken_absent [of "to (chunk ! index)" tokens]
    have "to (chunk ! index) \<notin> snd ` set (forEachTicket chunk (Suc index) ts
             (removeToken (to (chunk ! index)) tokens))"
      by blast
    with 0 i e show ?thesis by simp
  next
    case (Suc j')
    with Cons.prems have p: "j' < length ts" "Suc index + j' < length chunk"
      "ticketStatus (ts ! j') = ''error''" "detailsError (ts ! j') = Some ''DeviceNotRegistered''"
      by simp_all
    from p(2) have i: "index < length chunk" by simp
    have "to (chunk ! (Suc index + j')) \<notin> snd ` set (forEachTicket chunk (Suc index) ts tk)" for tk
      by (rule Cons.IH [OF p])
    with Suc i show ?thesis by simp
  qed
qed

lemma sendChunks_subset: "set (snd (sendChunks env k chunks tokens)) \<subseteq> set tokens"
proof (induction chunks arbitrary: k tokens)
  case Nil
  then show ?case by simp
next
  case (Cons c chunks)
  let ?tokens' = "case sendPushNotificationsAsync env k c of
                    Threw \<Rightarrow> tokens | Tickets ts \<Rightarrow> forEachTicket c 0 ts tokens"
  have "set ?tokens' \<subseteq> set tokens"
    by (cases "sendPushNotificationsAsync env k c") (simp_all add: forEachTicket_subset)
  with Cons.IH [of "Suc k" ?tokens'] show ?case
    by (auto simp: Let_def)
qed

lemma sendChunks_submits: "fst (sendChunks env k chunks tokens) = chunks"
  by (induction chunks arbitrary: k tokens) (simp_all add: Let_def)

lemma sendChunks_removes:
  "c < length chunks \<Longrightarrow> sendPushNotificationsAsync env (k + c) (chunks ! c) = Tickets ts \<Longrightarrow>
   j < length ts \<Longrightarrow> j < length (chunks ! c) \<Longrightarrow>
   ticketStatus (ts ! j) = ''error'' \<Longrightarrow> detailsError (ts ! j) = Some ''DeviceNotRegistered'' \<Longrightarrow>
   to (chunks ! c ! j) \<notin> snd ` set (snd (sendChunks env k chunks tokens))"
proof (induction chunks arbitrary: k c tokens)
  case Nil
  then show ?case by simp
next
  case (Cons ch chunks)
  show ?case
  proof (cases c)
    case 0
    with Cons.prems have r: "sendPushNotificationsAsync env k ch = Tickets ts"
      and j: "j < length ts" "0 + j < length ch" by simp_all
    from forEachTicket_removes [OF j Cons.prems(5,6)]
    have "to (ch ! j) \<notin> snd ` set (forEachTicket ch 0 ts tokens)" by simp
    with sendChunks_subset [of env "Suc k" chunks "forEachTicket ch 0 ts tokens"]
    have "to (ch ! j) \<notin> snd ` set (snd (sendChunks env (Suc k) chunks (forEachTicket ch 0 ts tokens)))"
      by blast
    with 0 r show ?thesis by (simp add: Let_def)
  next
    case (Suc c')
    with Cons.prems have p: "c' < length chunks"
      "sendPushNotificationsAsync env (Suc k + c') (chunks ! c') = Tickets ts"
      "j < length (chunks ! c')" by simp_all
    have "to (chunks ! c' ! j) \<notin> snd ` set (snd (sendChunks env (Suc k) chunks tk))" for tk
      by (rule Cons.IH [OF p(1,2) Cons.prems(3) p(3) Cons.prems(5,6)])
    with Suc show ?thesis by (simp add: Let_def)
  qed
qed

text \<open>
  C9. When the gateway answers a chunk with tickets and the ticket of a message is an
  error with \<open>DeviceNotRegistered\<close>, no registration holds that message's address when
  \<open>sendPushNotifications\<close> returns: every user entry with that token is deleted, and
  the dispatch only ever deletes entries. Deleting an address that no entry holds changes
  nothing. Every chunk is handed to the gateway, whatever the outcome of the chunks
  before it (a throwing call included).
\<close>

theorem invalid_token_removed:
  assumes "messages \<noteq> []"
    and "c < length (chunkPushNotifications env messages)"
    and "sendPushNotificationsAsync env c (chunkPushNotifications env messages ! c) = Tickets ts"
    and "j < length ts" and "j < length (chunkPushNotifications env messages ! c)"
    and "ticketStatus (ts ! j) = ''error''"
    and "detailsError (ts ! j) = Some ''DeviceNotRegistered''"
  shows "to (chunkPushNotifications env messages ! c ! j)
           \<notin> snd ` set (snd (sendPushNotifications env messages tokens))
    \<and> set (snd (sendPushNotifications env messages tokens)) \<subseteq> set tokens
    \<and> fst (sendPushNotifications env messages tokens) = chunkPushNotifications env messages
    \<and> (address \<notin> snd ` set tokens \<longrightarrow> removeToken address tokens = tokens)"
proof -
  from assms(3) have "sendPushNotificationsAsync env (0 + c) (chunkPushNotifications env messages ! c)
     = Tickets ts" by simp
  from sendChunks_removes [OF assms(2) this assms(4-7)] assms(1)
  show ?thesis
    by (simp add: sendPushNotifications_def sendChunks_subset sendChunks_submits removeToken_noop)
qed

theorem invalid_token_removed_witness:
  "exMessages \<noteq> []
   \<and> sendPushNotificationsAsync exEnv 0 (chunkPushNotifications exEnv exMessages ! 0) = Threw
   \<and> sendPushNotificationsAsync exEnv 1 (chunkPushNotifications exEnv exMessages ! 1)
       = Tickets [\<lparr>ticketStatus = ''error'', detailsError = Some ''DeviceNotRegistered''\<rparr>]
   \<and> to (chunkPushNotifications exEnv exMessages ! 1 ! 0) = ''ExponentPushToken[b]''
   \<and> ''ExponentPushToken[b]'' \<notin> snd ` set (snd (sendPushNotifications exEnv exMessages
        [(''u1'', ''ExponentPushToken[a]''), (''u4'', ''ExponentPushToken[b]''),
         (''u5'', ''ExponentPushToken[b]'')]))
   \<and> snd (sendPushNotifications exEnv exMessages
        [(''u1'', ''ExponentPushToken[a]''), (''u4'', ''ExponentPushToken[b]''),
         (''u5'', ''ExponentPushToken[b]'')]) = [(''u1'', ''ExponentPushToken[a]'')]
   \<and> fst (sendPushNotifications exEnv exMessages []) = chunkPushNotifications exEnv exMessages
   \<and> length (chunkPushNotifications exEnv exMessages) = 2
   \<and> removeToken ''ExponentPushToken[b]'' [(''u1'', ''ExponentPushToken[a]'')]
       = [(''u1'', ''ExponentPushToken[a]'')]"
proof -
  have ch: "chunkPushNotifications exEnv exMessages
              = [[showFinalWarning ''ExponentPushToken[a]'' exShow],
                 [showFinalWarning ''ExponentPushToken[b]'' exShow]]"
    by (simp add: exEnv_def exMessages_def)
  have ne: "exMessages \<noteq> []" by (simp add: exMessages_def)
  have c: "1 < length (chunkPushNotifications exEnv exMessages)" by (simp add: ch)
  have s0: "sendPushNotificationsAsync exEnv 0 (chunkPushNotifications exEnv exMessages ! 0) = Threw"
    by (simp add: exEnv_def)
  have s1: "sendPushNotificationsAsync exEnv 1 (chunkPushNotifications exEnv exMessages ! 1)
       = Tickets [\<lparr>ticketStatus = ''error'', detailsError = Some ''DeviceNotRegistered''\<rparr>]"
    unfolding ch by (simp add: exEnv_def)
  have t: "to (chunkPushNotifications exEnv exMessages ! 1 ! 0) = ''ExponentPushToken[b]''"
    unfolding ch by (simp add: showFinalWarning_def)
  have r: "snd (sendPushNotifications exEnv exMessages
        [(''u1'', ''ExponentPushToken[a]''), (''u4'', ''ExponentPushToken[b]''),
         (''u5'', ''ExponentPushToken[b]'')]) = [(''u1'', ''ExponentPushToken[a]'')]"
    unfolding sendPushNotifications_def ch
    by (simp add: ne Let_def exEnv_def showFinalWarning_def removeToken_def)
  have j: "0 < length [\<lparr>ticketStatus = ''error'', detailsError = Some ''DeviceNotRegistered''\<rparr>]"
    "0 < length (chunkPushNotifications exEnv exMessages ! 1)"
    "ticketStatus ([\<lparr>ticketStatus = ''error'', detailsError = Some ''DeviceNotRegistered''\<rparr>] ! 0)
       = ''error''"
    "detailsError ([\<lparr>ticketStatus = ''error'', detailsError = Some ''DeviceNotRegistered''\<rparr>] ! 0)
       = Some ''DeviceNotRegistered''"
    by (simp_all add: ch)
  have a: "''ExponentPushToken[b]'' \<notin> snd ` set (snd (sendPushNotifications exEnv exMessages
        [(''u1'', ''ExponentPushToken[a]''), (''u4'', ''ExponentPushToken[b]''),
         (''u5'', ''ExponentPushToken[b]'')]))"
    using invalid_token_removed [OF ne c s1 j, of "[(''u1'', ''ExponentPushToken[a]''),
      (''u4'', ''ExponentPushToken[b]''), (''u5'', ''ExponentPushToken[b]'')]"
      "''ExponentPushToken[b]''"]
    unfolding t by simp
  have b: "fst (sendPushNotifications exEnv exMessages []) = chunkPushNotifications exEnv exMessages"
    using invalid_token_removed [OF ne c s1 j, of "[]" "''ExponentPushToken[b]''"] by simp
  have l: "length (chunkPushNotifications exEnv exMessages) = 2" by (simp add: ch)
  have n: "removeToken ''ExponentPushToken[b]'' [(''u1'', ''ExponentPushToken[a]'')]
       = [(''u1'', ''ExponentPushToken[a]'')]" by (simp add: removeToken_def)
  from ne s0 s1 t a r b l n show ?thesis by blast
qed

section \<open>Properties of the event reminders\<close>


lemma showFinalWarning_flags [simp]:
  "showFinalWarning tok (s\<lparr>notified := n\<rparr>) = showFinalWarning tok s"
  by (simp add: showFinalWarning_def)




lemma fst_snd_remindUser [simp]: "fst (snd (remindUser env tokens today f e)) = fst e"
  by (simp add: remindUser_def Let_def split: option.splits)

lemma map_of_remindStore:
  "map_of (snd (remindStore env tokens today f store)) u
     = map_option (\<lambda>byDate. snd (snd (remindUser env tokens today f (u, byDate)))) (map_of store u)"
proof (induction store)
  case Nil
  then show ?case by (simp add: remindStore_def)
next
  case (Cons e store)
  obtain k v where e: "e = (k, v)" by (cases e)
  have "snd (remindUser env tokens today f (k, v))
          = (k, snd (snd (remindUser env tokens today f (k, v))))"
    using fst_snd_remindUser [of env tokens today f "(k, v)"]
    by (metis fst_conv prod.collapse)
  then have "map_of (snd (remindUser env tokens today f (k, v)) # rest) u
     = (if u = k then Some (snd (snd (remindUser env tokens today f (k, v)))) else map_of rest u)"
    for rest
    by (metis map_of_Cons_code(2))
  with Cons show ?case
    by (simp add: remindStore_def Let_def e)
qed

lemma itemsAt_remindStore:
  assumes "\<And>tok. snd (f tok []) = []"
  shows "itemsAt (snd (remindStore env tokens today f store)) u d
     = (case validPushToken env tokens u of
          None \<Rightarrow> itemsAt store u d
        | Some tok \<Rightarrow> if d = today then snd (f tok (itemsAt store u d)) else itemsAt store u d)"
proof (cases "map_of store u")
  case None
  then show ?thesis
    by (simp add: itemsAt_def map_of_remindStore assms split: option.splits)
next
  case (Some byDate)
  then show ?thesis
    by (cases "map_of byDate today")
      (auto simp: itemsAt_def map_of_remindStore remindUser_def Let_def update_conv' assms
        split: option.splits)
qed

lemma remindShows_nil [simp]: "snd (remindShows env now tok []) = []" by simp
lemma remindDinings_nil [simp]: "snd (remindDinings env now tok []) = []" by simp
lemma remindLanes_nil [simp]: "snd (remindLanes env now tok []) = []" by simp

lemma remindShow_keeps:
  "(notified s \<longrightarrow> notified (snd (remindShow env now tok s)))
   \<and> (finalWarningNotified s \<longrightarrow> finalWarningNotified (snd (remindShow env now tok s)))
   \<and> showId (snd (remindShow env now tok s)) = showId s"
  by (auto simp: remindShow_def Let_def split: option.splits)

lemma remindShows_keeps:
  "list_all2 (\<lambda>a b. (notified a \<longrightarrow> notified b)
                \<and> (finalWarningNotified a \<longrightarrow> finalWarningNotified b) \<and> showId b = showId a)
     ss (snd (remindShows env now tok ss))"
  by (induction ss) (simp_all add: Let_def remindShow_keeps)

lemma remindDining_keeps:
  "(notified d \<longrightarrow> notified (snd (remindDining env now tok d)))
   \<and> diningId (snd (remindDining env now tok d)) = diningId d"
  by (auto simp: remindDining_def Let_def split: option.splits)

lemma remindDinings_keeps:
  "list_all2 (\<lambda>a b. (notified a \<longrightarrow> notified b) \<and> diningId b = diningId a)
     ds (snd (remindDinings env now tok ds))"
  by (induction ds) (simp_all add: Let_def remindDining_keeps)

lemma remindLane_keeps:
  "(notified (snd e) \<longrightarrow> notified (snd (snd (remindLane env now tok e))))
   \<and> fst (snd (remindLane env now tok e)) = fst e"
  by (auto simp: remindLane_def Let_def split: option.splits)

lemma remindLanes_keeps:
  "list_all2 (\<lambda>a b. (notified (snd a) \<longrightarrow> notified (snd b)) \<and> fst b = fst a)
     es (snd (remindLanes env now tok es))"
  by (induction es) (simp_all add: Let_def remindLane_keeps)

lemma store_keeps:
  assumes "\<And>tok. snd (f tok []) = []"
    and "\<And>tok xs. list_all2 R xs (snd (f tok xs))"
    and "\<And>x. R x x"
  shows "list_all2 R (itemsAt store u d) (itemsAt (snd (remindStore env tokens today f store)) u d)"
  unfolding itemsAt_remindStore [of f, OF assms(1)]
  by (simp add: assms(2) assms(3) list_all2_refl split: option.splits)

lemma checkEventReminders_stores:
  "userShowSchedules (snd (snd (checkEventReminders env now today st)))
     = snd (remindStore env (userDeviceTokens st) today (remindShows env now) (userShowSchedules st))"
  "userDiningSchedules (snd (snd (checkEventReminders env now today st)))
     = snd (remindStore env (userDeviceTokens st) today (remindDinings env now)
              (userDiningSchedules st))"
  "userLightningLanes (snd (snd (checkEventReminders env now today st)))
     = snd (remindStore env (userDeviceTokens st) today (remindLanes env now)
              (userLightningLanes st))"
  by (simp_all add: checkEventReminders_def Let_def)








text \<open>
  C6. \<open>checkEventReminders\<close> never clears a flag: position by position, every show,
  dining reservation and Lightning Lane entry of every user and date keeps its identity,
  and a \<open>notified\<close> (for shows also \<open>finalWarningNotified\<close>) flag that was true before
  the call is true after it. The ride cycle \<open>checkAndNotifyUsers\<close> leaves the schedule
  stores as they are. The flag is cleared by the explicit edit of a dining reservation,
  \<open>editDining\<close>.
\<close>

theorem reminder_flags_monotonic:
  "list_all2 (\<lambda>a b. (notified a \<longrightarrow> notified b)
                \<and> (finalWarningNotified a \<longrightarrow> finalWarningNotified b) \<and> showId b = showId a)
     (itemsAt (userShowSchedules st) u d)
     (itemsAt (userShowSchedules (snd (snd (checkEventReminders env now today st)))) u d)
   \<and> list_all2 (\<lambda>a b. (notified a \<longrightarrow> notified b) \<and> diningId b = diningId a)
     (itemsAt (userDiningSchedules st) u d)
     (itemsAt (userDiningSchedules (snd (snd (checkEventReminders env now today st)))) u d)
   \<and> list_all2 (\<lambda>a b. (notified (snd a) \<longrightarrow> notified (snd b)) \<and> fst b = fst a)
     (itemsAt (userLightningLanes st) u d)
     (itemsAt (userLightningLanes (snd (snd (checkEventReminders env now today st)))) u d)
   \<and> userShowSchedules (snd (snd (checkAndNotifyUsers env st))) = userShowSchedules st
   \<and> userDiningSchedules (snd (snd (checkAndNotifyUsers env st))) = userDiningSchedules st
   \<and> userLightningLanes (snd (snd (checkAndNotifyUsers env st))) = userLightningLanes st
   \<and> \<not> notified (editDining b x)"
proof -
  have s: "list_all2 (\<lambda>a b. (notified a \<longrightarrow> notified b)
                \<and> (finalWarningNotified a \<longrightarrow> finalWarningNotified b) \<and> showId b = showId a)
     (itemsAt (userShowSchedules st) u d)
     (itemsAt (userShowSchedules (snd (snd (checkEventReminders env now today st)))) u d)"
    unfolding checkEventReminders_stores
    by (rule store_keeps) (simp_all add: remindShows_keeps)
  have di: "list_all2 (\<lambda>a b. (notified a \<longrightarrow> notified b) \<and> diningId b = diningId a)
     (itemsAt (userDiningSchedules st) u d)
     (itemsAt (userDiningSchedules (snd (snd (checkEventReminders env now today st)))) u d)"
    unfolding checkEventReminders_stores
    by (rule store_keeps) (simp_all add: remindDinings_keeps)
  have l: "list_all2 (\<lambda>a b. (notified (snd a) \<longrightarrow> notified (snd b)) \<and> fst b = fst a)
     (itemsAt (userLightningLanes st) u d)
     (itemsAt (userLightningLanes (snd (snd (checkEventReminders env now today st)))) u d)"
    unfolding checkEventReminders_stores
    by (rule store_keeps) (simp_all add: remindLanes_keeps)
  have e: "\<not> notified (editDining b x)" by (simp add: editDining_def)
  have c: "userShowSchedules (snd (snd (checkAndNotifyUsers env st))) = userShowSchedules st"
    "userDiningSchedules (snd (snd (checkAndNotifyUsers env st))) = userDiningSchedules st"
    "userLightningLanes (snd (snd (checkAndNotifyUsers env st))) = userLightningLanes st"
    by (simp_all add: checkAndNotifyUsers_def Let_def split: option.splits)
  from s di l e c show ?thesis by blast
qed

theorem reminder_flags_monotonic_witness:
  "map notified (itemsAt (userShowSchedules exState) ''u1'' ''2024-06-01'') = [False, True]
   \<and> map finalWarningNotified (itemsAt (userShowSchedules exState) ''u1'' ''2024-06-01'')
       = [False, True]
   \<and> notified (itemsAt (userShowSchedules
        (snd (snd (checkEventReminders exEnv 1717249140000 ''2024-06-01'' exState))))
          ''u1'' ''2024-06-01'' ! 1)
   \<and> finalWarningNotified (itemsAt (userShowSchedules
        (snd (snd (checkEventReminders exEnv 1717249140000 ''2024-06-01'' exState))))
          ''u1'' ''2024-06-01'' ! 1)
   \<and> map notified (itemsAt (userDiningSchedules exState) ''u1'' ''2024-06-01'') = [True]
   \<and> notified (itemsAt (userDiningSchedules
        (snd (snd (checkEventReminders exEnv 1717249140000 ''2024-06-01'' exState))))
          ''u1'' ''2024-06-01'' ! 0)
   \<and> map (notified \<circ> snd) (itemsAt (userLightningLanes exState) ''u1'' ''2024-06-01'') = [True]
   \<and> notified (snd (itemsAt (userLightningLanes
        (snd (snd (checkEventReminders exEnv 1717249140000 ''2024-06-01'' exState))))
          ''u1'' ''2024-06-01'' ! 0))"
proof -
  have a: "itemsAt (userShowSchedules exState) ''u1'' ''2024-06-01'' = [exShow, exShowDone]"
    "itemsAt (userDiningSchedules exState) ''u1'' ''2024-06-01'' = [exDining]"
    "itemsAt (userLightningLanes exState) ''u1'' ''2024-06-01'' = [(''R1'', exLane)]"
    by (simp_all add: exState_def itemsAt_def)
  have f: "notified exShowDone" "finalWarningNotified exShowDone" "\<not> notified exShow"
    "\<not> finalWarningNotified exShow" "notified exDining" "notified exLane"
    by (simp_all add: exShowDone_def exShow_def exDining_def exLane_def)
  note m = reminder_flags_monotonic [of exState "''u1''" "''2024-06-01''" exEnv 1717249140000
      "''2024-06-01''" "\<lparr>bodyDate = None, bodyTime = None, bodyType = None, bodyTravelTime = None\<rparr>"
      exDining, unfolded a]
  from m have s: "notified (itemsAt (userShowSchedules
        (snd (snd (checkEventReminders exEnv 1717249140000 ''2024-06-01'' exState))))
          ''u1'' ''2024-06-01'' ! 1)
     \<and> finalWarningNotified (itemsAt (userShowSchedules
        (snd (snd (checkEventReminders exEnv 1717249140000 ''2024-06-01'' exState))))
          ''u1'' ''2024-06-01'' ! 1)"
    using f by (auto simp: list_all2_Cons1)
  from m have d: "notified (itemsAt (userDiningSchedules
        (snd (snd (checkEventReminders exEnv 1717249140000 ''2024-06-01'' exState))))
          ''u1'' ''2024-06-01'' ! 0)"
    using f by (auto simp: list_all2_Cons1)
  from m have l: "notified (snd (itemsAt (userLightningLanes
        (snd (snd (checkEventReminders exEnv 1717249140000 ''2024-06-01'' exState))))
          ''u1'' ''2024-06-01'' ! 0))"
    using f by (auto simp: list_all2_Cons1)
  from s d l show ?thesis
    unfolding a by (simp add: f)
qed

section \<open>Properties of the schedule routes\<close>


lemma itemsAt_update [simp]:
  "itemsAt (AList.update u (AList.update d xs byDate) store) u d = xs"
  by (simp add: itemsAt_def update_conv')

lemma find_updateFirst:
  "List.find P xs = Some x \<Longrightarrow> P (f x) \<Longrightarrow> List.find P (updateFirst P f xs) = Some (f x)"
  by (induction xs) (auto split: if_splits)

lemma diningId_editDining [simp]: "diningId (editDining b d) = diningId d"
  by (simp add: editDining_def)

lemma putDining_found:
  assumes "bodyDate b = Some date" and "date \<noteq> []"
    and "List.find (\<lambda>d. diningId d = i) (itemsAt (userDiningSchedules st) u date) = Some d0"
  shows "putDining u i b st =
           (Response 200 ''Dining reservation updated'',
            st\<lparr>userDiningSchedules :=
                 AList.update u
                   (AList.update date
                      (updateFirst (\<lambda>d. diningId d = i) (editDining b)
                         (itemsAt (userDiningSchedules st) u date))
                      (case map_of (userDiningSchedules st) u of None \<Rightarrow> [] | Some x \<Rightarrow> x))
                   (userDiningSchedules st)\<rparr>)"
proof -
  from assms(3) obtain byDate ds where
    m: "map_of (userDiningSchedules st) u = Some byDate" "map_of byDate date = Some ds"
    by (auto simp: itemsAt_def split: option.splits)
  then have i: "itemsAt (userDiningSchedules st) u date = ds"
    by (simp add: itemsAt_def)
  from assms m i show ?thesis
    by (simp add: putDining_def)
qed

text \<open>
  The claim C7 asks for an update operation for every kind of schedule entry. The
  application has none for shows: a PUT request for the show s2 of user u1, whose flags
  are set, reaches no handler and leaves the state as it was, and posting the show again
  with a new time and travel time appends a second entry while the first keeps its time
  and its flags.
\<close>

theorem show_update_absent:
  "map showId (itemsAt (userShowSchedules exState) ''u1'' ''2024-06-01'') = [''s1'', ''s2'']
   \<and> map notified (itemsAt (userShowSchedules exState) ''u1'' ''2024-06-01'') = [False, True]
   \<and> appPut exEnv [''api'', ''users'', ''u1'', ''shows'', ''s2''] exPut exState
       = (Response 404 ''Cannot PUT'', exState)
   \<and> fst (postShow ''u1'' exPostShow exState) = Response 200 ''Show added to schedule''
   \<and> map (\<lambda>s. (showId s, selectedTime s, travelTime s, notified s, finalWarningNotified s))
        (itemsAt (userShowSchedules (snd (postShow ''u1'' exPostShow exState))) ''u1'' ''2024-06-01'')
       = [(''s1'', ''2024-06-01T14:00:00Z'', 20, False, False),
          (''s2'', ''2024-06-01T14:00:00Z'', 3, True, True),
          (''s2'', ''2024-06-01T15:00:00Z'', 30, False, False)]"
  by (simp add: appPut_def putRoute_def exEnv_def postShow_def exPostShow_def exState_def
      itemsAt_def Let_def exShow_def exShowDone_def)

text \<open>
  C7, as the code has it. Dining reservations are the only entries with an update
  operation, the PUT route: when the reservation is found under the given date, the
  update stores the new time, type and travel time where the request gives them, keeps
  the id and the restaurant name, and sets \<open>notified\<close> to false in the same step,
  whichever fields changed. A PUT
  request on a path that does not match the route reaches no handler and changes nothing.
  A Lightning Lane entry is replaced by posting it again for the same date and ride, and
  the stored entry has \<open>notified\<close> false. Posting a show appends a new entry with both
  flags false to the entries the date already has, which stay as they are.
\<close>

theorem update_operations:
  "(matchRoute env putRoute path = Some [u, i] \<and> bodyDate b = Some date \<and> date \<noteq> [] \<and>
    List.find (\<lambda>d. diningId d = i) (itemsAt (userDiningSchedules st) u date) = Some d0
    \<longrightarrow> appPut env path b st = putDining u i b st
      \<and> fst (putDining u i b st) = Response 200 ''Dining reservation updated''
      \<and> itemsAt (userDiningSchedules (snd (putDining u i b st))) u date
          = updateFirst (\<lambda>d. diningId d = i) (editDining b)
              (itemsAt (userDiningSchedules st) u date)
      \<and> List.find (\<lambda>d. diningId d = i)
            (itemsAt (userDiningSchedules (snd (putDining u i b st))) u date)
          = Some (editDining b d0)
      \<and> \<not> notified (editDining b d0)
      \<and> travelTime (editDining b d0)
          = (case bodyTravelTime b of None \<Rightarrow> travelTime d0 | Some v \<Rightarrow> v)
      \<and> diningTime (editDining b d0)
          = (case bodyTime b of None \<Rightarrow> diningTime d0
             | Some t \<Rightarrow> if t = [] then diningTime d0 else t)
      \<and> diningType (editDining b d0)
          = (case bodyType b of None \<Rightarrow> diningType d0
             | Some t \<Rightarrow> if t = [] then diningType d0 else t)
      \<and> diningId (editDining b d0) = diningId d0
      \<and> restaurantName (editDining b d0) = restaurantName d0)
   \<and> (matchRoute env putRoute path' = None
        \<longrightarrow> appPut env path' b st = (Response 404 ''Cannot PUT'', st))
   \<and> (date \<noteq> [] \<and> rid \<noteq> [] \<and> rn \<noteq> [] \<and> rt \<noteq> []
        \<longrightarrow> map_of (itemsAt (userLightningLanes (snd (postLightningLane u
                \<lparr>plDate = Some date, plRideId = Some rid, plRideName = Some rn,
                 plReturnTime = Some rt, plTravelTime = Some tt\<rparr> st))) u date) rid
            = Some \<lparr>travelTime = tt, notified = False, laneRideName = rn, returnTime = rt\<rparr>)
   \<and> (date \<noteq> [] \<and> sid \<noteq> [] \<and> sn \<noteq> [] \<and> t \<noteq> []
        \<longrightarrow> itemsAt (userShowSchedules (snd (postShow u
                \<lparr>psDate = Some date, psShowId = Some sid, psShowName = Some sn,
                 psSelectedTime = Some t, psTravelTime = Some tt\<rparr> st))) u date
            = itemsAt (userShowSchedules st) u date
              @ [\<lparr>travelTime = tt, notified = False, showId = sid, showName = sn,
                  selectedTime = t, finalWarningNotified = False\<rparr>])"
proof -
  have d: "matchRoute env putRoute path = Some [u, i] \<and> bodyDate b = Some date \<and> date \<noteq> [] \<and>
    List.find (\<lambda>d. diningId d = i) (itemsAt (userDiningSchedules st) u date) = Some d0
    \<longrightarrow> appPut env path b st = putDining u i b st
      \<and> fst (putDining u i b st) = Response 200 ''Dining reservation updated''
      \<and> itemsAt (userDiningSchedules (snd (putDining u i b st))) u date
          = updateFirst (\<lambda>d. diningId d = i) (editDining b)
              (itemsAt (userDiningSchedules st) u date)
      \<and> List.find (\<lambda>d. diningId d = i)
            (itemsAt (userDiningSchedules (snd (putDining u i b st))) u date)
          = Some (editDining b d0)
      \<and> \<not> notified (editDining b d0)
      \<and> travelTime (editDining b d0)
          = (case bodyTravelTime b of None \<Rightarrow> travelTime d0 | Some v \<Rightarrow> v)
      \<and> diningTime (editDining b d0)
          = (case bodyTime b of None \<Rightarrow> diningTime d0
             | Some t \<Rightarrow> if t = [] then diningTime d0 else t)
      \<and> diningType (editDining b d0)
          = (case bodyType b of None \<Rightarrow> diningType d0
             | Some t \<Rightarrow> if t = [] then diningType d0 else t)
      \<and> diningId (editDining b d0) = diningId d0
      \<and> restaurantName (editDining b d0) = restaurantName d0"
  proof (intro impI, elim conjE)
    assume r: "matchRoute env putRoute path = Some [u, i]"
    assume a: "bodyDate b = Some date" "date \<noteq> []"
      "List.find (\<lambda>d. diningId d = i) (itemsAt (userDiningSchedules st) u date) = Some d0"
    have f: "List.find (\<lambda>d. diningId d = i)
               (updateFirst (\<lambda>d. diningId d = i) (editDining b)
                  (itemsAt (userDiningSchedules st) u date)) = Some (editDining b d0)"
    proof (rule find_updateFirst [OF a(3)])
      from a(3) have "diningId d0 = i" by (auto simp: find_Some_iff)
      then show "diningId (editDining b d0) = i" by simp
    qed
    show "appPut env path b st = putDining u i b st
      \<and> fst (putDining u i b st) = Response 200 ''Dining reservation updated''
      \<and> itemsAt (userDiningSchedules (snd (putDining u i b st))) u date
          = updateFirst (\<lambda>d. diningId d = i) (editDining b)
              (itemsAt (userDiningSchedules st) u date)
      \<and> List.find (\<lambda>d. diningId d = i)
            (itemsAt (userDiningSchedules (snd (putDining u i b st))) u date)
          = Some (editDining b d0)
      \<and> \<not> notified (editDining b d0)
      \<and> travelTime (editDining b d0)
          = (case bodyTravelTime b of None \<Rightarrow> travelTime d0 | Some v \<Rightarrow> v)
      \<and> diningTime (editDining b d0)
          = (case bodyTime b of None \<Rightarrow> diningTime d0
             | Some t \<Rightarrow> if t = [] then diningTime d0 else t)
      \<and> diningType (editDining b d0)
          = (case bodyType b of None \<Rightarrow> diningType d0
             | Some t \<Rightarrow> if t = [] then diningType d0 else t)
      \<and> diningId (editDining b d0) = diningId d0
      \<and> restaurantName (editDining b d0) = restaurantName d0"
      by (simp add: putDining_found [OF a] f appPut_def r) (simp add: editDining_def)
  qed
  have p: "matchRoute env putRoute path' = None
        \<longrightarrow> appPut env path' b st = (Response 404 ''Cannot PUT'', st)"
    by (simp add: appPut_def)
  have l: "date \<noteq> [] \<and> rid \<noteq> [] \<and> rn \<noteq> [] \<and> rt \<noteq> []
        \<longrightarrow> map_of (itemsAt (userLightningLanes (snd (postLightningLane u
                \<lparr>plDate = Some date, plRideId = Some rid, plRideName = Some rn,
                 plReturnTime = Some rt, plTravelTime = Some tt\<rparr> st))) u date) rid
            = Some \<lparr>travelTime = tt, notified = False, laneRideName = rn, returnTime = rt\<rparr>"
    by (simp add: postLightningLane_def Let_def update_conv')
  have s: "date \<noteq> [] \<and> sid \<noteq> [] \<and> sn \<noteq> [] \<and> t \<noteq> []
        \<longrightarrow> itemsAt (userShowSchedules (snd (postShow u
                \<lparr>psDate = Some date, psShowId = Some sid, psShowName = Some sn,
                 psSelectedTime = Some t, psTravelTime = Some tt\<rparr> st))) u date
            = itemsAt (userShowSchedules st) u date
              @ [\<lparr>travelTime = tt, notified = False, showId = sid, showName = sn,
                  selectedTime = t, finalWarningNotified = False\<rparr>]"
    by (simp add: postShow_def Let_def) (simp add: itemsAt_def split: option.splits)
  from d p l s show ?thesis by blast
qed

theorem update_operations_witness:
  "matchRoute exEnv putRoute [''api'', ''users'', ''u1'', ''dining'', ''d1''] = Some [''u1'', ''d1'']
   \<and> matchRoute exEnv putRoute [''api'', ''users'', ''u1'', ''lightning-lane'', ''R1''] = None
   \<and> bodyDate exPut = Some ''2024-06-01''
   \<and> appPut exEnv [''api'', ''users'', ''u1'', ''dining'', ''d1''] exPut exState
       = putDining ''u1'' ''d1'' exPut exState
   \<and> List.find (\<lambda>d. diningId d = ''d1'')
        (itemsAt (userDiningSchedules exState) ''u1'' ''2024-06-01'') = Some exDining
   \<and> notified exDining
   \<and> fst (putDining ''u1'' ''d1'' exPut exState) = Response 200 ''Dining reservation updated''
   \<and> List.find (\<lambda>d. diningId d = ''d1'')
        (itemsAt (userDiningSchedules (snd (putDining ''u1'' ''d1'' exPut exState)))
           ''u1'' ''2024-06-01'') = Some (editDining exPut exDining)
   \<and> \<not> notified (editDining exPut exDining)
   \<and> travelTime (editDining exPut exDining) = 30
   \<and> diningTime (editDining exPut exDining) = ''2024-06-01T15:00:00Z''
   \<and> diningType exDining = ''lunch''
   \<and> diningType (editDining exPut exDining) = ''dinner''
   \<and> appPut exEnv [''api'', ''users'', ''u1'', ''lightning-lane'', ''R1''] exPut exState
       = (Response 404 ''Cannot PUT'', exState)
   \<and> map_of (itemsAt (userLightningLanes (snd (postLightningLane ''u1'' exPostLane exState)))
               ''u1'' ''2024-06-01'') ''R1''
       = Some \<lparr>travelTime = 30, notified = False, laneRideName = ''Space Mountain'',
               returnTime = ''2024-06-01T15:00:00Z''\<rparr>
   \<and> itemsAt (userShowSchedules (snd (postShow ''u1'' exPostShow exState))) ''u1'' ''2024-06-01''
       = [exShow, exShowDone,
          \<lparr>travelTime = 30, notified = False, showId = ''s2'', showName = ''Parade'',
            selectedTime = ''2024-06-01T15:00:00Z'', finalWarningNotified = False\<rparr>]"
proof -
  have a: "bodyDate exPut = Some ''2024-06-01''" "bodyTravelTime exPut = Some 30"
    "bodyTime exPut = Some ''2024-06-01T15:00:00Z''" "bodyType exPut = Some ''dinner''"
    by (simp_all add: exPut_def)
  have i: "itemsAt (userDiningSchedules exState) ''u1'' ''2024-06-01'' = [exDining]"
    "itemsAt (userShowSchedules exState) ''u1'' ''2024-06-01'' = [exShow, exShowDone]"
    by (simp_all add: exState_def itemsAt_def)
  have f: "List.find (\<lambda>d. diningId d = ''d1'')
        (itemsAt (userDiningSchedules exState) ''u1'' ''2024-06-01'') = Some exDining"
    unfolding i by (simp add: exDining_def)
  have n: "notified exDining" "diningId exDining = ''d1''" "diningType exDining = ''lunch''"
    by (simp_all add: exDining_def)
  have p: "matchRoute exEnv putRoute [''api'', ''users'', ''u1'', ''dining'', ''d1'']
             = Some [''u1'', ''d1'']"
    "matchRoute exEnv putRoute [''api'', ''users'', ''u1'', ''lightning-lane'', ''R1''] = None"
    by (simp_all add: exEnv_def putRoute_def)
  note t = update_operations [where b = exPut and date = "''2024-06-01''" and i = "''d1''"
      and st = exState and u = "''u1''" and ?d0.0 = exDining and env = exEnv
      and path = "[''api'', ''users'', ''u1'', ''dining'', ''d1'']"
      and path' = "[''api'', ''users'', ''u1'', ''lightning-lane'', ''R1'']"
      and rid = "''R1''" and rn = "''Space Mountain''" and rt = "''2024-06-01T15:00:00Z''"
      and tt = 30 and sid = "''s2''" and sn = "''Parade''" and t = "''2024-06-01T15:00:00Z''",
      folded exPostLane_def exPostShow_def]
  from t a f n p show ?thesis
    by (simp add: i)
qed

section \<open>Properties of the archival sweep\<close>

text \<open>What the sweep does to the three live stores: it removes every past date from the
  show store, and from the dining and Lightning Lane stores the past dates that the show
  store had for the same user.\<close>

lemma entryAt_delete:
  "entryAt (AList.map_entry u (AList.delete d) store) u' d'
     = (if u' = u \<and> d' = d then None else entryAt store u' d')"
  by (auto simp: entryAt_def map_of_map_entry delete_conv' split: option.splits)

lemma archiveDate_stores:
  "entryAt (userShowSchedules (archiveDate u d shows st)) u' d'
     = (if u' = u \<and> d' = d then None else entryAt (userShowSchedules st) u' d')"
  "entryAt (userDiningSchedules (archiveDate u d shows st)) u' d'
     = (if u' = u \<and> d' = d then None else entryAt (userDiningSchedules st) u' d')"
  "entryAt (userLightningLanes (archiveDate u d shows st)) u' d'
     = (if u' = u \<and> d' = d then None else entryAt (userLightningLanes st) u' d')"
  by (simp_all add: archiveDate_def Let_def entryAt_delete)

lemma archiveUser_stores:
  "entryAt (userShowSchedules (archiveUser today (u, bd) st)) u' d'
     = (if u' = u \<and> d' < today \<and> d' \<in> fst ` set bd then None
        else entryAt (userShowSchedules st) u' d')
   \<and> entryAt (userDiningSchedules (archiveUser today (u, bd) st)) u' d'
     = (if u' = u \<and> d' < today \<and> d' \<in> fst ` set bd then None
        else entryAt (userDiningSchedules st) u' d')
   \<and> entryAt (userLightningLanes (archiveUser today (u, bd) st)) u' d'
     = (if u' = u \<and> d' < today \<and> d' \<in> fst ` set bd then None
        else entryAt (userLightningLanes st) u' d')"
  unfolding archiveUser_def fst_conv snd_conv
proof (induction bd arbitrary: st)
  case Nil
  then show ?case by simp
next
  case (Cons de bd)
  show ?case
    by (simp add: Cons.IH archiveDate_stores) auto
qed

lemma fold_archiveUser_stores:
  "entryAt (userShowSchedules (fold (archiveUser today) store st)) u' d'
     = (if swept today store u' d' then None else entryAt (userShowSchedules st) u' d')
   \<and> entryAt (userDiningSchedules (fold (archiveUser today) store st)) u' d'
     = (if swept today store u' d' then None else entryAt (userDiningSchedules st) u' d')
   \<and> entryAt (userLightningLanes (fold (archiveUser today) store st)) u' d'
     = (if swept today store u' d' then None else entryAt (userLightningLanes st) u' d')"
proof (induction store arbitrary: st)
  case Nil
  then show ?case by (simp add: swept_def)
next
  case (Cons e store)
  obtain u bd where e: "e = (u, bd)" by (cases e)
  have s: "swept today (e # store) u' d'
             \<longleftrightarrow> (u' = u \<and> d' < today \<and> d' \<in> fst ` set bd) \<or> swept today store u' d'"
    by (auto simp: swept_def e)
  show ?case
    unfolding s by (simp add: Cons.IH e archiveUser_stores)
qed

lemma entryAt_Some_swept:
  "entryAt store u d = Some x \<Longrightarrow> d < today \<Longrightarrow> swept today store u d"
  unfolding swept_def entryAt_def
  by (force split: option.splits dest!: map_of_SomeD)

lemma sweep_effect:
  "entryAt (userShowSchedules (autoArchivePastDates today st)) u d
     = (if d < today then None else entryAt (userShowSchedules st) u d)
   \<and> entryAt (userDiningSchedules (autoArchivePastDates today st)) u d
     = (if swept today (userShowSchedules st) u d then None
        else entryAt (userDiningSchedules st) u d)
   \<and> entryAt (userLightningLanes (autoArchivePastDates today st)) u d
     = (if swept today (userShowSchedules st) u d then None
        else entryAt (userLightningLanes st) u d)"
proof -
  have "entryAt (userShowSchedules st) u d = None"
    if "d < today" "\<not> swept today (userShowSchedules st) u d"
    using that entryAt_Some_swept [of "userShowSchedules st" u d _ today]
    by (cases "entryAt (userShowSchedules st) u d") auto
  moreover have "\<not> swept today (userShowSchedules st) u d" if "\<not> d < today"
    using that by (simp add: swept_def)
  ultimately show ?thesis
    unfolding autoArchivePastDates_def
    by (auto simp: fold_archiveUser_stores)
qed

text \<open>
  C1 at a concrete state, with today = 2024-06-01. User u3 has a dining reservation on
  2024-05-30 and no show schedule: the sweep visits only the dates of the show store, so
  after it the dining store of u3 still holds 2024-05-30 and nothing is archived for u3.
  For user u1 the date 2024-05-31 is in the show store: it is removed from the show and
  dining stores and archived with its former contents.
\<close>

theorem archive_misses_dining_only_dates:
  "''2024-05-30'' < ''2024-06-01''
   \<and> datesOf (userShowSchedules exState) ''u3'' = []
   \<and> datesOf (userDiningSchedules exState) ''u3'' = [''2024-05-30'']
   \<and> datesOf (userDiningSchedules (autoArchivePastDates ''2024-06-01'' exState)) ''u3''
       = [''2024-05-30'']
   \<and> map_of (archivedSchedules (autoArchivePastDates ''2024-06-01'' exState)) ''u3'' = None
   \<and> datesOf (userShowSchedules (autoArchivePastDates ''2024-06-01'' exState)) ''u1''
       = [''2024-06-01'']
   \<and> datesOf (userDiningSchedules (autoArchivePastDates ''2024-06-01'' exState)) ''u1''
       = [''2024-06-01'']
   \<and> map_of (archivedSchedules (autoArchivePastDates ''2024-06-01'' exState)) ''u1''
       = Some [(''2024-05-31'', \<lparr>archivedShows = [exShowDone], archivedDining = [exDining],
                                  archivedLightningLanes = []\<rparr>)]"
  by (simp add: autoArchivePastDates_def archiveUser_def archiveDate_def exState_def
      datesOf_def itemsAt_def Let_def)

end
